theory Spec2Isabelle
  imports Complex_Main
begin

section \<open>VibeSphere: the state of \<^verbatim>\<open>main.js\<close>\<close>

text \<open>
  The program is one JavaScript module: module-level variables, functions that assign to
  them, and event callbacks registered on the DOM, on the video element and on the XR
  controllers. The model is explicit state passing: one record holds the module-level
  variables and the fields of the objects they refer to, and every function of the source
  is a function from the record to the updated record.

  What the rendering library and the browser compute is an input of the model: the hits
  a raycast returns, the time of a frame, the moment a media event fires, and the outcome
  of the promise of \<^verbatim>\<open>play()\<close>. JavaScript numbers that hold seconds, volumes and
  coordinates are real numbers here. Console output and the texts written into DOM labels
  are not part of the state; the stages passed to \<^verbatim>\<open>reportError\<close> are.
\<close>

subsection \<open>Values\<close>

text \<open>An entry of \<^verbatim>\<open>trendingItems\<close>. A missing \<^verbatim>\<open>playlistId\<close> is \<open>None\<close>.\<close>

record item =
  item_id :: nat
  item_title :: string
  item_color :: nat
  item_description :: string
  item_playlistId :: "string option"

text \<open>
  What \<^verbatim>\<open>playlists[playlistId]\<close> can evaluate to: \<^verbatim>\<open>undefined\<close>, one of the arrays
  of the literal, or a member that the literal inherits from \<^verbatim>\<open>Object.prototype\<close>
  (a function, of which only \<^verbatim>\<open>length\<close> matters, or the prototype object itself).
\<close>

datatype jsval = Undefined | Array "string list" | Function nat | Object

text \<open>A number used as a playlist index: an integer or \<^verbatim>\<open>NaN\<close>.\<close>

datatype jsnum = Num int | NaN

text \<open>\<^verbatim>\<open>htmlVideo.duration\<close>: \<^verbatim>\<open>NaN\<close> until the metadata is known, a number of
  seconds, or \<^verbatim>\<open>Infinity\<close> for an unbounded stream.\<close>

datatype seconds = NaN_seconds | Finite real | Infinity

text \<open>
  The handler stored in \<^verbatim>\<open>htmlVideo.onended\<close> by \<^verbatim>\<open>playFromPlaylist\<close> is a closure
  over \<^verbatim>\<open>playlistId\<close> and \<^verbatim>\<open>list\<close>; the one stored in \<^verbatim>\<open>onloadeddata\<close> always
  calls \<^verbatim>\<open>playVideo\<close>.
\<close>

record video =
  src :: string
  volume :: real
  muted :: bool
  paused :: bool
  loop :: bool
  currentTime :: "real option"
  duration :: seconds
  onloadeddata :: "unit option"
  onended :: "(string \<times> jsval) option"

record material =
  emissive :: "nat option"
  emissiveIntensity :: real

record mesh =
  userData_item :: "item option"
  position_y :: real
  mesh_scale :: "real \<times> real \<times> real"
  mesh_material :: "material option"

text \<open>
  \<^verbatim>\<open>panels\<close> and \<^verbatim>\<open>panelGroup.children\<close> receive the same meshes in the same order
  (\<^verbatim>\<open>setupPanels\<close>) and neither array changes afterwards, so one list holds them; a
  panel is identified by its position in it. \<open>panelGroup\<close> tells whether the group
  exists. \<open>curvedScreen\<close> is the height of the screen mesh, \<open>videoTexture\<close> the
  \<^verbatim>\<open>needsUpdate\<close> flag of the texture; both are \<open>None\<close> while the variable is
  \<^verbatim>\<open>undefined\<close>. \<open>currentTime = None\<close> stands for \<^verbatim>\<open>NaN\<close>.
\<close>

record state =
  panels :: "mesh list"
  panelGroup :: bool
  curvedScreen :: "real option"
  videoTexture :: "bool option"
  htmlVideo :: "video option"
  currentItem :: "item option"
  currentPlaylistId :: "string option"
  currentPlaylistIndex :: jsnum
  audioEnabled :: bool
  isPlaying :: bool
  hoveredPanel :: "nat option"
  errors :: "string list"

subsection \<open>Constants of the module\<close>

definition playlists :: "(string \<times> string list) list" where
  "playlists =
    [(''creators'',
       [''https://commondatastorage.googleapis.com/gtv-videos-bucket/sample/BigBuckBunny.mp4'',
        ''https://commondatastorage.googleapis.com/gtv-videos-bucket/sample/ElephantsDream.mp4'']),
     (''music'',
       [''https://commondatastorage.googleapis.com/gtv-videos-bucket/sample/ForBiggerJoyrides.mp4'',
        ''https://commondatastorage.googleapis.com/gtv-videos-bucket/sample/ForBiggerBlazes.mp4'']),
     (''gaming'',
       [''https://commondatastorage.googleapis.com/gtv-videos-bucket/sample/ForBiggerEscapes.mp4'',
        ''https://commondatastorage.googleapis.com/gtv-videos-bucket/sample/ForBiggerFun.mp4'']),
     (''news'',
       [''https://commondatastorage.googleapis.com/gtv-videos-bucket/sample/Sintel.mp4'',
        ''https://commondatastorage.googleapis.com/gtv-videos-bucket/sample/TearsOfSteel.mp4''])]"

text \<open>
  \<^verbatim>\<open>playlists\<close> is an object literal, so a lookup by a name that is not one of its
  own keys continues in \<^verbatim>\<open>Object.prototype\<close>. These are its members, each function
  with its \<^verbatim>\<open>length\<close>.
\<close>

definition object_prototype :: "(string \<times> jsval) list" where
  "object_prototype =
    [(''constructor'', Function 1),
     (''hasOwnProperty'', Function 1),
     (''isPrototypeOf'', Function 1),
     (''propertyIsEnumerable'', Function 1),
     (''toLocaleString'', Function 0),
     (''toString'', Function 0),
     (''valueOf'', Function 0),
     (''__defineGetter__'', Function 2),
     (''__defineSetter__'', Function 2),
     (''__lookupGetter__'', Function 1),
     (''__lookupSetter__'', Function 1),
     (''__proto__'', Object)]"

definition playlists_get :: "string \<Rightarrow> jsval" where
  "playlists_get playlistId =
    (case map_of playlists playlistId of
       Some list \<Rightarrow> Array list
     | None \<Rightarrow>
        (case map_of object_prototype playlistId of
           Some v \<Rightarrow> v
         | None \<Rightarrow> Undefined))"

definition trendingItems :: "item list" where
  "trendingItems =
    [\<lparr>item_id = 1, item_title = ''Top Creator Clips'', item_color = 0xff7b7b,
      item_description = ''A curated wall of viral creator moments.'',
      item_playlistId = Some ''creators''\<rparr>,
     \<lparr>item_id = 2, item_title = ''Global Music Vibes'', item_color = 0x7be0ff,
      item_description = ''Relaxing ocean view loop.'',
      item_playlistId = Some ''music''\<rparr>,
     \<lparr>item_id = 3, item_title = ''Gaming Highlights'', item_color = 0x9d7bff,
      item_description = ''Fast paced race footage.'',
      item_playlistId = Some ''gaming''\<rparr>,
     \<lparr>item_id = 4, item_title = ''News & Explainers'', item_color = 0xffc857,
      item_description = ''Short explainer style clip.'',
      item_playlistId = Some ''news''\<rparr>]"

subsection \<open>Operators of the language\<close>

text \<open>\<^verbatim>\<open>list.length\<close>: \<open>None\<close> is \<^verbatim>\<open>undefined\<close>.\<close>

fun js_length :: "jsval \<Rightarrow> nat option" where
  "js_length Undefined = None"
| "js_length (Array xs) = Some (length xs)"
| "js_length (Function n) = Some n"
| "js_length Object = None"

text \<open>
  \<^verbatim>\<open>a % n\<close>: the remainder has the sign of the dividend; it is \<^verbatim>\<open>NaN\<close> when an
  operand is \<^verbatim>\<open>NaN\<close> or \<^verbatim>\<open>undefined\<close> and when the divisor is zero.
\<close>

fun js_rem :: "jsnum \<Rightarrow> nat option \<Rightarrow> jsnum" where
  "js_rem (Num a) (Some n) =
     (if n = 0 then NaN else Num (sgn a * (\<bar>a\<bar> mod int n)))"
| "js_rem _ _ = NaN"

fun js_succ :: "jsnum \<Rightarrow> jsnum" where
  "js_succ (Num a) = Num (a + 1)"
| "js_succ NaN = NaN"

text \<open>\<^verbatim>\<open>list[i]\<close>: \<open>None\<close> is \<^verbatim>\<open>undefined\<close>.\<close>

fun js_index :: "jsval \<Rightarrow> jsnum \<Rightarrow> string option" where
  "js_index (Array xs) (Num i) =
     (if 0 \<le> i \<and> i < int (length xs) then Some (xs ! nat i) else None)"
| "js_index _ _ = None"

text \<open>Assigning to \<^verbatim>\<open>htmlVideo.src\<close> converts the value to a string.\<close>

fun js_to_string :: "string option \<Rightarrow> string" where
  "js_to_string (Some u) = u"
| "js_to_string None = ''undefined''"

text \<open>A string is truthy when it is there and not empty.\<close>

fun truthy :: "string option \<Rightarrow> bool" where
  "truthy None = False"
| "truthy (Some u) = (u \<noteq> [])"

text \<open>
  \<^verbatim>\<open>String.prototype.trim\<close> on strings of code units below 256: tab, line feed,
  vertical tab, form feed, carriage return, space and the no-break space are removed at
  both ends.
\<close>

definition is_white_space :: "char \<Rightarrow> bool" where
  "is_white_space c = (of_char c \<in> {9, 10, 11, 12, 13, 32, 160 :: nat})"

definition trim :: "string \<Rightarrow> string" where
  "trim u = rev (dropWhile is_white_space (rev (dropWhile is_white_space u)))"

subsection \<open>Error reporting\<close>

definition reportError :: "string \<Rightarrow> state \<Rightarrow> state" where
  "reportError stage s = s\<lparr>errors := errors s @ [stage]\<rparr>"

subsection \<open>Video control helpers\<close>

text \<open>
  \<^verbatim>\<open>playVideo\<close> calls \<^verbatim>\<open>htmlVideo.play()\<close>, which clears \<^verbatim>\<open>paused\<close>; the two
  callbacks of the promise are the functions \<open>playVideo_then\<close> and \<open>playVideo_catch\<close>,
  which run when the browser settles it. \<open>aborted\<close> is the test on the name and
  message of the rejection.
\<close>

definition playVideo :: "state \<Rightarrow> state" where
  "playVideo s =
    (case htmlVideo s of
       None \<Rightarrow> s
     | Some v \<Rightarrow> s\<lparr>htmlVideo := Some (v\<lparr>paused := False\<rparr>)\<rparr>)"

definition playVideo_then :: "state \<Rightarrow> state" where
  "playVideo_then s = s\<lparr>isPlaying := True\<rparr>"

definition playVideo_catch :: "bool \<Rightarrow> state \<Rightarrow> state" where
  "playVideo_catch aborted s = (if aborted then s else reportError ''Video play'' s)"

definition pauseVideo :: "state \<Rightarrow> state" where
  "pauseVideo s =
    (case htmlVideo s of
       None \<Rightarrow> s
     | Some v \<Rightarrow> s\<lparr>htmlVideo := Some (v\<lparr>paused := True\<rparr>), isPlaying := False\<rparr>)"

definition ensureAudioEnabled :: "state \<Rightarrow> state" where
  "ensureAudioEnabled s =
    (case htmlVideo s of
       None \<Rightarrow> s
     | Some v \<Rightarrow>
        if audioEnabled s then s
        else s\<lparr>htmlVideo := Some (v\<lparr>muted := False, volume := 1\<rparr>),
               audioEnabled := True\<rparr>)"

definition toggleMute :: "state \<Rightarrow> state" where
  "toggleMute s =
    (case htmlVideo s of
       None \<Rightarrow> s
     | Some v \<Rightarrow>
        if muted v \<or> volume v = 0
        then s\<lparr>htmlVideo := Some (v\<lparr>muted := False, volume := 1\<rparr>),
                audioEnabled := True\<rparr>
        else s\<lparr>htmlVideo := Some (v\<lparr>muted := True\<rparr>)\<rparr>)"

definition changeVolume :: "real \<Rightarrow> state \<Rightarrow> state" where
  "changeVolume delta s =
    (case htmlVideo s of
       None \<Rightarrow> s
     | Some v \<Rightarrow>
        let newVol = volume v + delta;
            newVol = max 0 (min 1 newVol);
            s1 = s\<lparr>htmlVideo := Some (v\<lparr>volume := newVol\<rparr>)\<rparr>
        in if newVol > 0
           then s1\<lparr>htmlVideo := Some (v\<lparr>volume := newVol, muted := False\<rparr>),
                   audioEnabled := True\<rparr>
           else s1)"

text \<open>
  \<^verbatim>\<open>htmlVideo.duration || 0\<close> turns \<^verbatim>\<open>NaN\<close> into 0, and the test
  \<^verbatim>\<open>duration && target > duration - 0.1\<close> fails for 0 and for \<^verbatim>\<open>Infinity\<close>.
\<close>

definition seekBy :: "real \<Rightarrow> state \<Rightarrow> state" where
  "seekBy deltaSeconds s =
    (case htmlVideo s of
       None \<Rightarrow> s
     | Some v \<Rightarrow>
        (case currentTime v of
           None \<Rightarrow> s
         | Some now \<Rightarrow>
            let target = now + deltaSeconds;
                target = (if target < 0 then 0 else target);
                target =
                  (case duration v of
                     Finite d \<Rightarrow> if d \<noteq> 0 \<and> target > d - 0.1 then d - 0.1 else target
                   | NaN_seconds \<Rightarrow> target
                   | Infinity \<Rightarrow> target)
            in s\<lparr>htmlVideo := Some (v\<lparr>currentTime := Some target\<rparr>)\<rparr>))"

subsection \<open>Playlists\<close>

text \<open>
  The body of \<^verbatim>\<open>playFromPlaylist\<close> runs inside \<^verbatim>\<open>try\<close>: a method call on a
  missing video element and the assignment to \<^verbatim>\<open>videoTexture.needsUpdate\<close> while the
  texture is still \<^verbatim>\<open>undefined\<close> raise a \<^verbatim>\<open>TypeError\<close>, and the \<^verbatim>\<open>catch\<close> reports
  it; what was assigned before stays assigned.
\<close>

definition playFromPlaylist :: "string \<Rightarrow> jsnum \<Rightarrow> state \<Rightarrow> state" where
  "playFromPlaylist playlistId startIndex s =
    (let list = playlists_get playlistId in
     if list = Undefined \<or> js_length list = Some 0 then reportError ''Playlist'' s
     else
       let index = js_rem startIndex (js_length list);
           s1 = s\<lparr>currentPlaylistId := Some playlistId, currentPlaylistIndex := index\<rparr>;
           url = js_index list index
       in case htmlVideo s1 of
            None \<Rightarrow> reportError ''playFromPlaylist'' s1
          | Some v \<Rightarrow>
             let v1 = v\<lparr>paused := True, src := js_to_string url\<rparr>;
                 s2 = s1\<lparr>htmlVideo := Some v1, isPlaying := False\<rparr>
             in (case videoTexture s2 of
                   None \<Rightarrow> reportError ''playFromPlaylist'' s2
                 | Some _ \<Rightarrow>
                    s2\<lparr>videoTexture := Some True,
                       htmlVideo :=
                         Some (v1\<lparr>onloadeddata := Some (),
                                   onended := Some (playlistId, list)\<rparr>)\<rparr>))"

subsection \<open>Media events\<close>

text \<open>
  The handler that \<^verbatim>\<open>playFromPlaylist\<close> stores in \<^verbatim>\<open>htmlVideo.onended\<close>, with the
  \<^verbatim>\<open>playlistId\<close> and \<^verbatim>\<open>list\<close> it has captured. It reads \<^verbatim>\<open>currentPlaylistIndex\<close>
  at the moment it runs.
\<close>

definition onended_handler :: "string \<times> jsval \<Rightarrow> state \<Rightarrow> state" where
  "onended_handler closure s =
    (case closure of
       (playlistId, list) \<Rightarrow>
         let nextIndex = js_rem (js_succ (currentPlaylistIndex s)) (js_length list)
         in playFromPlaylist playlistId nextIndex s)"

text \<open>
  The video reaches its end. An element whose \<^verbatim>\<open>loop\<close> flag is set starts over and the
  browser dispatches no \<^verbatim>\<open>ended\<close> event; \<^verbatim>\<open>setupVideoScreen\<close> sets the flag and
  nothing in the module clears it. Without the flag the browser dispatches \<^verbatim>\<open>ended\<close>,
  which runs the handler in \<^verbatim>\<open>htmlVideo.onended\<close>, if there is one.
\<close>

definition video_ended :: "state \<Rightarrow> state" where
  "video_ended s =
    (case htmlVideo s of
       None \<Rightarrow> s
     | Some v \<Rightarrow>
        if loop v then s
        else (case onended v of
                None \<Rightarrow> s
              | Some closure \<Rightarrow> onended_handler closure s))"

text \<open>
  The \<^verbatim>\<open>loadeddata\<close> event first runs the listener that \<^verbatim>\<open>setupVideoScreen\<close> added
  (a new texture, a new screen mesh at height 3, \<^verbatim>\<open>playVideo\<close>), then the handler in
  \<^verbatim>\<open>htmlVideo.onloadeddata\<close>, if there is one. The meshes of earlier events stay in
  the scene, but \<^verbatim>\<open>curvedScreen\<close> refers to the newest only, and only that one is
  part of the state.
\<close>

definition video_loadeddata :: "state \<Rightarrow> state" where
  "video_loadeddata s =
    (let s1 = playVideo (s\<lparr>videoTexture := Some False, curvedScreen := Some 3\<rparr>)
     in case htmlVideo s1 of
          None \<Rightarrow> s1
        | Some v \<Rightarrow> (case onloadeddata v of None \<Rightarrow> s1 | Some _ \<Rightarrow> playVideo s1))"

text \<open>The \<^verbatim>\<open>error\<close> event; \<open>has_error\<close> tells whether \<^verbatim>\<open>htmlVideo.error\<close> is set.\<close>

definition video_error :: "bool \<Rightarrow> state \<Rightarrow> state" where
  "video_error has_error s = (if has_error then reportError ''Video element'' s else s)"

text \<open>What the browser does to the element on its own as the media loads and plays.\<close>

definition media_progress :: "real option \<Rightarrow> seconds \<Rightarrow> bool \<Rightarrow> state \<Rightarrow> state" where
  "media_progress now whole stopped s =
    (case htmlVideo s of
       None \<Rightarrow> s
     | Some v \<Rightarrow>
        s\<lparr>htmlVideo := Some (v\<lparr>currentTime := now, duration := whole, paused := stopped\<rparr>)\<rparr>)"

subsection \<open>Panels: hover and activation\<close>

text \<open>
  The result of the raycasts of one call of \<^verbatim>\<open>getHoveredPanel\<close>: the panels hit by
  the ray through the pointer, nearest first, and for each controller whether it is
  visible and the panels its ray hits, nearest first.
\<close>

record rays =
  mouse_hits :: "nat list"
  controller_hits :: "(bool \<times> nat list) list"

fun controllers_loop :: "(bool \<times> nat list) list \<Rightarrow> nat option" where
  "controllers_loop [] = None"
| "controllers_loop ((visible, hits) # controllers) =
     (if \<not> visible then controllers_loop controllers
      else (case hits of
              hit # _ \<Rightarrow> Some hit
            | [] \<Rightarrow> controllers_loop controllers))"

definition getHoveredPanel :: "rays \<Rightarrow> nat option" where
  "getHoveredPanel r =
    (case mouse_hits r of
       hit # _ \<Rightarrow> Some hit
     | [] \<Rightarrow> controllers_loop (controller_hits r))"

definition has_emissive :: "mesh \<Rightarrow> bool" where
  "has_emissive m =
    (case mesh_material m of None \<Rightarrow> False | Some mat \<Rightarrow> emissive mat \<noteq> None)"

definition reset_panel :: "mesh \<Rightarrow> mesh" where
  "reset_panel m =
    (let m1 = m\<lparr>mesh_scale := (1, 1, 1)\<rparr>
     in case mesh_material m1 of
          None \<Rightarrow> m1
        | Some mat \<Rightarrow>
           if emissive mat \<noteq> None
           then m1\<lparr>mesh_material := Some (mat\<lparr>emissiveIntensity := 0\<rparr>)\<rparr>
           else m1)"

definition highlight_panel :: "mesh \<Rightarrow> mesh" where
  "highlight_panel m =
    (let m1 = m\<lparr>mesh_scale := (1.05, 1.05, 1.05)\<rparr>
     in case mesh_material m1 of
          None \<Rightarrow> m1
        | Some mat \<Rightarrow>
           if emissive mat \<noteq> None
           then m1\<lparr>mesh_material :=
                     Some (mat\<lparr>emissive := Some 0xffffff, emissiveIntensity := 0.25\<rparr>)\<rparr>
           else m1)"

definition update_panel :: "nat \<Rightarrow> (mesh \<Rightarrow> mesh) \<Rightarrow> state \<Rightarrow> state" where
  "update_panel i f s =
    (if i < length (panels s) then s\<lparr>panels := (panels s)[i := f (panels s ! i)]\<rparr> else s)"

definition updateHover :: "rays \<Rightarrow> state \<Rightarrow> state" where
  "updateHover r s =
    (case getHoveredPanel r of
       Some hit \<Rightarrow>
        let s1 = (case hoveredPanel s of
                    Some previous \<Rightarrow>
                      if previous \<noteq> hit then update_panel previous reset_panel s else s
                  | None \<Rightarrow> s);
            s2 = s1\<lparr>hoveredPanel := Some hit\<rparr>
        in update_panel hit highlight_panel s2
     | None \<Rightarrow>
        let s1 = (case hoveredPanel s of
                    Some previous \<Rightarrow> update_panel previous reset_panel s
                  | None \<Rightarrow> s)
        in s1\<lparr>hoveredPanel := None\<rparr>)"

text \<open>The argument of \<^verbatim>\<open>activatePanel\<close> is a mesh or \<^verbatim>\<open>null\<close>.\<close>

definition activatePanel :: "mesh option \<Rightarrow> state \<Rightarrow> state" where
  "activatePanel panel s =
    (case panel of
       None \<Rightarrow> s
     | Some m \<Rightarrow>
        (case userData_item m of
           None \<Rightarrow> s
         | Some item \<Rightarrow>
            let s1 = ensureAudioEnabled (s\<lparr>currentItem := Some item\<rparr>)
            in (case item_playlistId item of
                  None \<Rightarrow> s1
                | Some playlistId \<Rightarrow>
                   if playlistId \<noteq> [] then playFromPlaylist playlistId (Num 0) s1
                   else s1)))"

text \<open>The object a raycast hit refers to.\<close>

definition panel_at :: "state \<Rightarrow> nat \<Rightarrow> mesh option" where
  "panel_at s i = (if i < length (panels s) then Some (panels s ! i) else None)"

definition onXRSelect :: "nat list \<Rightarrow> state \<Rightarrow> state" where
  "onXRSelect hits s =
    (case hits of
       hit # _ \<Rightarrow> activatePanel (panel_at s hit) s
     | [] \<Rightarrow> s)"

definition window_click :: "rays \<Rightarrow> state \<Rightarrow> state" where
  "window_click r s =
    (case getHoveredPanel r of
       Some hit \<Rightarrow> activatePanel (panel_at s hit) s
     | None \<Rightarrow> s)"

subsection \<open>DOM controls\<close>

text \<open>
  The click handlers that \<^verbatim>\<open>setupDOMControls\<close> registers. \<open>urlInput\<close> is the value of
  the input field, \<open>None\<close> when the page has no such field. In the first branch of the
  load button a \<^verbatim>\<open>TypeError\<close> is caught by the handler's own \<^verbatim>\<open>try\<close>.
\<close>

definition click_load_video :: "string option \<Rightarrow> state \<Rightarrow> state" where
  "click_load_video urlInput s =
    (let customUrl = (case urlInput of Some val \<Rightarrow> trim val | None \<Rightarrow> []);
         fallback = playFromPlaylist ''creators'' (Num 0) s
     in if customUrl \<noteq> [] then
          (case htmlVideo s of
             None \<Rightarrow> reportError ''Load video button'' s
           | Some v \<Rightarrow>
              let v1 = v\<lparr>paused := True, src := customUrl\<rparr>;
                  s1 = s\<lparr>htmlVideo := Some v1, isPlaying := False,
                         currentPlaylistId := None\<rparr>
              in (case videoTexture s1 of
                    None \<Rightarrow> reportError ''Load video button'' s1
                  | Some _ \<Rightarrow>
                     s1\<lparr>videoTexture := Some True,
                        htmlVideo :=
                          Some (v1\<lparr>onloadeddata := Some (), onended := None\<rparr>)\<rparr>))
        else
          (case currentItem s of
             None \<Rightarrow> fallback
           | Some item \<Rightarrow>
              (case item_playlistId item of
                 None \<Rightarrow> fallback
               | Some playlistId \<Rightarrow>
                  if playlistId \<noteq> [] then playFromPlaylist playlistId (Num 0) s
                  else fallback)))"

definition click_play_pause :: "state \<Rightarrow> state" where
  "click_play_pause s =
    ensureAudioEnabled (if isPlaying s then pauseVideo s else playVideo s)"

definition click_unmute :: "state \<Rightarrow> state" where
  "click_unmute s = toggleMute s"

definition click_seek_back :: "state \<Rightarrow> state" where
  "click_seek_back s = seekBy (- 10) s"

definition click_seek_forward :: "state \<Rightarrow> state" where
  "click_seek_forward s = seekBy 10 s"

definition click_vol_down :: "state \<Rightarrow> state" where
  "click_vol_down s = changeVolume (- 0.1) s"

definition click_vol_up :: "state \<Rightarrow> state" where
  "click_vol_up s = changeVolume 0.1 s"

subsection \<open>Animation loop\<close>

text \<open>
  One call of \<^verbatim>\<open>render\<close>: \<open>t\<close> is \<^verbatim>\<open>performance.now() * 0.001\<close>, \<open>r\<close> the raycasts
  of this frame. The panel at position \<open>i\<close> of \<^verbatim>\<open>panelGroup.children\<close> gets its height
  from \<open>t + i\<close>.
\<close>

definition bob_panels :: "real \<Rightarrow> mesh list \<Rightarrow> mesh list" where
  "bob_panels t ms =
    map (\<lambda>(i, panel). panel\<lparr>position_y := 0.65 + sin (t + real i) * 0.03\<rparr>)
      (enumerate 0 ms)"

definition render :: "real \<Rightarrow> rays \<Rightarrow> state \<Rightarrow> state" where
  "render t r s =
    (let s1 = (if panelGroup s then s\<lparr>panels := bob_panels t (panels s)\<rparr> else s);
         s2 = (case curvedScreen s1 of
                 None \<Rightarrow> s1
               | Some _ \<Rightarrow> s1\<lparr>curvedScreen := Some (2.1 + sin (t * 0.5) * 0.05)\<rparr>)
     in updateHover r s2)"

subsection \<open>Start of the program\<close>

text \<open>The module-level variables as the declarations leave them.\<close>

definition globals :: state where
  "globals =
    \<lparr>panels = [], panelGroup = False, curvedScreen = None, videoTexture = None,
     htmlVideo = None, currentItem = None, currentPlaylistId = None,
     currentPlaylistIndex = Num 0, audioEnabled = False, isPlaying = False,
     hoveredPanel = None, errors = []\<rparr>"

definition new_panel :: "item \<Rightarrow> mesh" where
  "new_panel item =
    \<lparr>userData_item = Some item, position_y = 1, mesh_scale = (1, 1, 1),
     mesh_material = Some \<lparr>emissive = Some 0, emissiveIntensity = 0\<rparr>\<rparr>"

definition setupPanels :: "state \<Rightarrow> state" where
  "setupPanels s =
    s\<lparr>panels := map new_panel trendingItems, panelGroup := True,
      currentItem := (case trendingItems of [] \<Rightarrow> None | item # _ \<Rightarrow> Some item)\<rparr>"

text \<open>
  A phase of the start either returns or throws after reporting; when one throws, the
  top level reports once more and the later phases, which register every callback, do
  not run.
\<close>

datatype outcome = Thrown state | Returned state

definition fallback_url :: string where
  "fallback_url =
    ''https://commondatastorage.googleapis.com/gtv-videos-bucket/sample/BigBuckBunny.mp4''"

text \<open>\<open>element\<close> is what \<^verbatim>\<open>document.getElementById("vs-video")\<close> returns.\<close>

definition setupVideoScreen :: "video option \<Rightarrow> state \<Rightarrow> outcome" where
  "setupVideoScreen element s =
    (case element of
       None \<Rightarrow> Thrown (reportError ''Video screen setup'' s)
     | Some v \<Rightarrow>
        let v1 = v\<lparr>muted := True, loop := True\<rparr>;
            unset = (None, s);
            (initialUrl, s1) =
              (case trendingItems of
                 [] \<Rightarrow> unset
               | firstItem # _ \<Rightarrow>
                  (case item_playlistId firstItem of
                     None \<Rightarrow> unset
                   | Some playlistId \<Rightarrow>
                      if playlistId = [] then unset
                      else
                        let list = playlists_get playlistId
                        in if list \<noteq> Undefined \<and>
                              (case js_length list of Some n \<Rightarrow> n > 0 | None \<Rightarrow> False)
                           then (js_index list (Num 0),
                                 s\<lparr>currentPlaylistId := Some playlistId,
                                   currentPlaylistIndex := Num 0\<rparr>)
                           else unset));
            url = (if truthy initialUrl then js_to_string initialUrl else fallback_url)
        in Returned (s1\<lparr>htmlVideo := Some (v1\<lparr>src := url\<rparr>)\<rparr>))"

definition start :: "video option \<Rightarrow> outcome" where
  "start element =
    (case setupVideoScreen element (setupPanels globals) of
       Thrown s \<Rightarrow> Thrown (reportError ''Top-level init'' s)
     | Returned s \<Rightarrow> Returned s)"

subsection \<open>The program as a machine\<close>

text \<open>
  After the start, the program only reacts: each callback is one event. A raycast
  against \<^verbatim>\<open>panels\<close> returns objects of \<^verbatim>\<open>panels\<close>, so every hit is a position
  of that list.
\<close>

datatype event =
    Frame real rays
  | Click rays
  | XRSelect "nat list"
  | LoadVideo "string option"
  | PlayPause
  | Unmute
  | SeekBack
  | SeekForward
  | VolDown
  | VolUp
  | Loadeddata
  | Ended
  | VideoError bool
  | PlayResolved
  | PlayRejected bool
  | Progress "real option" seconds bool

fun step :: "state \<Rightarrow> event \<Rightarrow> state" where
  "step s (Frame t r) = render t r s"
| "step s (Click r) = window_click r s"
| "step s (XRSelect hits) = onXRSelect hits s"
| "step s (LoadVideo urlInput) = click_load_video urlInput s"
| "step s PlayPause = click_play_pause s"
| "step s Unmute = click_unmute s"
| "step s SeekBack = click_seek_back s"
| "step s SeekForward = click_seek_forward s"
| "step s VolDown = click_vol_down s"
| "step s VolUp = click_vol_up s"
| "step s Loadeddata = video_loadeddata s"
| "step s Ended = video_ended s"
| "step s (VideoError has_error) = video_error has_error s"
| "step s PlayResolved = playVideo_then s"
| "step s (PlayRejected aborted) = playVideo_catch aborted s"
| "step s (Progress now whole stopped) = media_progress now whole stopped s"

definition rays_ok :: "rays \<Rightarrow> bool" where
  "rays_ok r =
    ((\<forall>hit \<in> set (mouse_hits r). hit < length trendingItems) \<and>
     (\<forall>(visible, hits) \<in> set (controller_hits r).
        \<forall>hit \<in> set hits. hit < length trendingItems))"

fun event_ok :: "event \<Rightarrow> bool" where
  "event_ok (Frame t r) = rays_ok r"
| "event_ok (Click r) = rays_ok r"
| "event_ok (XRSelect hits) = (\<forall>hit \<in> set hits. hit < length trendingItems)"
| "event_ok _ = True"

definition run :: "state \<Rightarrow> event list \<Rightarrow> state" where
  "run s events = foldl step s events"

text \<open>
  The handlers of the video element are those that this module stores: the element that
  the page supplies has none for \<^verbatim>\<open>ended\<close> and \<^verbatim>\<open>loadeddata\<close>.
\<close>

definition pristine :: "video \<Rightarrow> bool" where
  "pristine v = (onended v = None \<and> onloadeddata v = None)"

subsection \<open>Two concrete states\<close>

text \<open>
  A page whose video element is untouched, the state the start leaves, and the state a
  little later: the first video has loaded, plays, and is five seconds into its twelve.
\<close>

definition fresh_video :: video where
  "fresh_video =
    \<lparr>src = [], volume = 1, muted = False, paused = True, loop = False,
     currentTime = Some 0, duration = NaN_seconds, onloadeddata = None, onended = None\<rparr>"

definition started :: state where
  "started = (case start (Some fresh_video) of Returned s \<Rightarrow> s | Thrown s \<Rightarrow> s)"

definition playing :: state where
  "playing = media_progress (Some 5) (Finite 12) False (video_loadeddata started)"

text \<open>The state after the first video has loaded and the second panel was selected.\<close>

definition browsing :: state where
  "browsing = run started [Loadeddata, XRSelect [1]]"

subsection \<open>What holds of every state the running program is in\<close>

text \<open>
  The panels are the ones \<^verbatim>\<open>setupPanels\<close> made, one for each entry of
  \<^verbatim>\<open>trendingItems\<close>, each with a material that has an emissive colour.
\<close>

definition panels_ok :: "state \<Rightarrow> bool" where
  "panels_ok s =
    (panelGroup s \<and> length (panels s) = length trendingItems \<and>
     (\<forall>i < length trendingItems.
        userData_item (panels s ! i) = Some (trendingItems ! i) \<and>
        has_emissive (panels s ! i)))"

definition intensity :: "mesh \<Rightarrow> real option" where
  "intensity m = map_option emissiveIntensity (mesh_material m)"

definition highlighted :: "mesh \<Rightarrow> bool" where
  "highlighted m = (mesh_scale m = (1.05, 1.05, 1.05) \<and> intensity m = Some 0.25)"

definition plain :: "mesh \<Rightarrow> bool" where
  "plain m = (mesh_scale m = (1, 1, 1) \<and> intensity m = Some 0)"

text \<open>The panel in \<^verbatim>\<open>hoveredPanel\<close> is highlighted and no other panel is.\<close>

definition hover_ok :: "state \<Rightarrow> bool" where
  "hover_ok s =
    ((case hoveredPanel s of None \<Rightarrow> True | Some h \<Rightarrow> h < length (panels s)) \<and>
     (\<forall>i < length (panels s).
        if hoveredPanel s = Some i then highlighted (panels s ! i)
        else plain (panels s ! i)))"

text \<open>
  There is a video element; the current item is one of \<^verbatim>\<open>trendingItems\<close>; a current
  playlist is one of \<^verbatim>\<open>playlists\<close> and the current index lies within it; a handler for
  \<^verbatim>\<open>ended\<close> exists only together with the texture and belongs to the current playlist.
\<close>

definition playlist_ok :: "state \<Rightarrow> bool" where
  "playlist_ok s =
    ((case htmlVideo s of
        None \<Rightarrow> False
      | Some v \<Rightarrow>
         (case onended v of
            None \<Rightarrow> True
          | Some (playlistId, list) \<Rightarrow>
              videoTexture s \<noteq> None \<and> currentPlaylistId s = Some playlistId \<and>
              list = playlists_get playlistId)) \<and>
     (case currentPlaylistId s of
        None \<Rightarrow> True
      | Some playlistId \<Rightarrow>
         (case map_of playlists playlistId of
            None \<Rightarrow> False
          | Some list \<Rightarrow>
             (case currentPlaylistIndex s of
                NaN \<Rightarrow> False
              | Num i \<Rightarrow> 0 \<le> i \<and> i < int (length list)))) \<and>
     (case currentItem s of
        None \<Rightarrow> False
      | Some item \<Rightarrow> item \<in> set trendingItems))"

definition invariant :: "state \<Rightarrow> bool" where
  "invariant s = (panels_ok s \<and> hover_ok s \<and> playlist_ok s)"

subsection \<open>Projections of the state\<close>

text \<open>
  The four variables declared together at the top of the module, and the part of the
  state that the playback functions read and write: these four, \<^verbatim>\<open>isPlaying\<close>, the
  video element and the texture.
\<close>

definition cursor :: "state \<Rightarrow> item option \<times> string option \<times> jsnum \<times> bool" where
  "cursor s = (currentItem s, currentPlaylistId s, currentPlaylistIndex s, audioEnabled s)"

definition playback ::
  "state \<Rightarrow>
   (item option \<times> string option \<times> jsnum \<times> bool) \<times> bool \<times> video option \<times> bool option" where
  "playback s = (cursor s, isPlaying s, htmlVideo s, videoTexture s)"


text \<open>The part of the state that the hover highlight reads and writes.\<close>

definition scene :: "state \<Rightarrow> mesh list \<times> bool \<times> nat option" where
  "scene s = (panels s, panelGroup s, hoveredPanel s)"

section \<open>Properties\<close>

subsection \<open>The concrete states, evaluated\<close>

lemma start_fresh: "start (Some fresh_video) = Returned started"
  by (simp add: started_def start_def setupVideoScreen_def Let_def trendingItems_def
      playlists_get_def playlists_def)

lemma started_eq:
  "started =
    \<lparr>panels = map new_panel trendingItems, panelGroup = True, curvedScreen = None,
     videoTexture = None,
     htmlVideo = Some (fresh_video\<lparr>muted := True, loop := True,
        src := ''https://commondatastorage.googleapis.com/gtv-videos-bucket/sample/BigBuckBunny.mp4''\<rparr>),
     currentItem = Some (trendingItems ! 0), currentPlaylistId = Some ''creators'',
     currentPlaylistIndex = Num 0, audioEnabled = False, isPlaying = False,
     hoveredPanel = None, errors = []\<rparr>"
  by (simp add: started_def start_def setupVideoScreen_def setupPanels_def globals_def Let_def
      trendingItems_def playlists_get_def playlists_def)

lemma playing_eq:
  "playing =
    \<lparr>panels = map new_panel trendingItems, panelGroup = True, curvedScreen = Some 3,
     videoTexture = Some False,
     htmlVideo = Some (fresh_video\<lparr>muted := True, loop := True,
        src := ''https://commondatastorage.googleapis.com/gtv-videos-bucket/sample/BigBuckBunny.mp4'',
        paused := False, currentTime := Some 5, duration := Finite 12\<rparr>),
     currentItem = Some (trendingItems ! 0), currentPlaylistId = Some ''creators'',
     currentPlaylistIndex = Num 0, audioEnabled = False, isPlaying = False,
     hoveredPanel = None, errors = []\<rparr>"
  by (simp add: playing_def started_eq media_progress_def video_loadeddata_def playVideo_def
      fresh_video_def)

subsection \<open>Volume\<close>

text \<open>
  Claim C3. A click on the volume-up button adds 0.1 to the volume of the video, a click
  on the volume-down button subtracts 0.1, and the result is clamped to the interval
  from 0 to 1.
\<close>

theorem volume_buttons:
  assumes "htmlVideo s = Some v"
  shows "map_option volume (htmlVideo (click_vol_up s)) =
           Some (max 0 (min 1 (volume v + 0.1))) \<and>
         map_option volume (htmlVideo (click_vol_down s)) =
           Some (max 0 (min 1 (volume v - 0.1)))"
  using assms by (simp add: click_vol_up_def click_vol_down_def changeVolume_def Let_def)

theorem volume_buttons_witness:
  "map_option volume (htmlVideo playing) = Some 1 \<and>
   map_option volume (htmlVideo (click_vol_up playing)) = Some 1 \<and>
   map_option volume (htmlVideo (click_vol_down playing)) = Some 0.9"
proof -
  obtain v where v: "htmlVideo playing = Some v" "volume v = 1"
    by (simp add: playing_eq fresh_video_def)
  from volume_buttons [OF v(1)] v show ?thesis
    by simp
qed

text \<open>
  Claim C8. Whatever the real number \<open>delta\<close>, after \<^verbatim>\<open>changeVolume(delta)\<close> the volume
  of the video lies between 0 and 1, and when it is above 0 the video is not muted and
  \<^verbatim>\<open>audioEnabled\<close> is true.
\<close>

theorem changeVolume_range:
  assumes "htmlVideo s = Some v"
  shows "\<exists>v'. htmlVideo (changeVolume delta s) = Some v' \<and>
           0 \<le> volume v' \<and> volume v' \<le> 1 \<and>
           (0 < volume v' \<longrightarrow> \<not> muted v' \<and> audioEnabled (changeVolume delta s))"
  using assms by (auto simp add: changeVolume_def Let_def max_def min_def)

theorem changeVolume_range_witness:
  "htmlVideo playing \<noteq> None \<and>
   (\<exists>v'. htmlVideo (changeVolume (- 0.5) playing) = Some v' \<and>
           0 \<le> volume v' \<and> volume v' \<le> 1 \<and> 0 < volume v' \<and>
           \<not> muted v' \<and> audioEnabled (changeVolume (- 0.5) playing))"
proof -
  obtain v where v: "htmlVideo playing = Some v"
    by (simp add: playing_eq)
  have pos: "\<And>v'. htmlVideo (changeVolume (- 0.5) playing) = Some v' \<Longrightarrow> 0 < volume v'"
    by (auto simp add: playing_eq changeVolume_def Let_def fresh_video_def)
  from changeVolume_range [OF v, of "- 0.5"] pos v show ?thesis
    by auto
qed

subsection \<open>Seeking\<close>

text \<open>
  Claim C4. A click on the seek-back button moves the playback position by -10 seconds, a
  click on the seek-forward button by +10 seconds; the target is first raised to 0 when
  it is negative and then, when the duration is a number other than 0, lowered to the
  duration minus 0.1 seconds when it exceeds that.
\<close>

theorem seek_buttons:
  assumes "htmlVideo s = Some v" and "currentTime v = Some now"
  shows "map_option currentTime (htmlVideo (click_seek_back s)) =
           Some (Some (case duration v of
                   Finite d \<Rightarrow>
                     if d \<noteq> 0 then min (max 0 (now - 10)) (d - 0.1) else max 0 (now - 10)
                 | _ \<Rightarrow> max 0 (now - 10))) \<and>
         map_option currentTime (htmlVideo (click_seek_forward s)) =
           Some (Some (case duration v of
                   Finite d \<Rightarrow>
                     if d \<noteq> 0 then min (max 0 (now + 10)) (d - 0.1) else max 0 (now + 10)
                 | _ \<Rightarrow> max 0 (now + 10)))"
  using assms
  by (auto simp add: click_seek_back_def click_seek_forward_def seekBy_def Let_def
      max_def min_def split: seconds.splits)

theorem seek_buttons_witness:
  "map_option currentTime (htmlVideo playing) = Some (Some 5) \<and>
   map_option duration (htmlVideo playing) = Some (Finite 12) \<and>
   map_option currentTime (htmlVideo (click_seek_back playing)) = Some (Some 0) \<and>
   map_option currentTime (htmlVideo (click_seek_forward playing)) = Some (Some 11.9)"
proof -
  obtain v where v: "htmlVideo playing = Some v" "currentTime v = Some 5"
      "duration v = Finite 12"
    by (simp add: playing_eq)
  from seek_buttons [OF v(1) v(2)] v show ?thesis
    by simp
qed

subsection \<open>Frames\<close>

lemma length_update_panel [simp]:
  "length (panels (update_panel i f s)) = length (panels s)"
  by (simp add: update_panel_def)

lemma update_panel_other [simp]:
  "curvedScreen (update_panel i f s) = curvedScreen s"
  "hoveredPanel (update_panel i f s) = hoveredPanel s"
  "htmlVideo (update_panel i f s) = htmlVideo s"
  "videoTexture (update_panel i f s) = videoTexture s"
  "panelGroup (update_panel i f s) = panelGroup s"
  "currentItem (update_panel i f s) = currentItem s"
  "currentPlaylistId (update_panel i f s) = currentPlaylistId s"
  "currentPlaylistIndex (update_panel i f s) = currentPlaylistIndex s"
  "audioEnabled (update_panel i f s) = audioEnabled s"
  "isPlaying (update_panel i f s) = isPlaying s"
  "errors (update_panel i f s) = errors s"
  by (simp_all add: update_panel_def)

lemma nth_update_panel:
  "j < length (panels s) \<Longrightarrow>
   panels (update_panel i f s) ! j = (if j = i then f (panels s ! j) else panels s ! j)"
  by (simp add: update_panel_def)

lemma position_y_reset [simp]: "position_y (reset_panel m) = position_y m"
  by (simp add: reset_panel_def Let_def split: option.splits)

lemma position_y_highlight [simp]: "position_y (highlight_panel m) = position_y m"
  by (simp add: highlight_panel_def Let_def split: option.splits)

lemma length_updateHover [simp]:
  "length (panels (updateHover r s)) = length (panels s)"
  by (simp add: updateHover_def Let_def split: option.splits)

lemma curvedScreen_updateHover [simp]:
  "curvedScreen (updateHover r s) = curvedScreen s"
  by (simp add: updateHover_def Let_def split: option.splits)

lemma position_y_updateHover:
  "j < length (panels s) \<Longrightarrow>
   position_y (panels (updateHover r s) ! j) = position_y (panels s ! j)"
  by (simp add: updateHover_def Let_def nth_update_panel split: option.splits)

lemma length_bob_panels [simp]: "length (bob_panels t ms) = length ms"
  by (simp add: bob_panels_def)

lemma nth_bob_panels:
  "i < length ms \<Longrightarrow>
   bob_panels t ms ! i = (ms ! i)\<lparr>position_y := 0.65 + sin (t + real i) * 0.03\<rparr>"
  by (simp add: bob_panels_def nth_enumerate_eq)

lemma bob_bound: "\<bar>a * sin x\<bar> \<le> \<bar>a\<bar>" for a x :: real
proof -
  have "\<bar>a * sin x\<bar> = \<bar>a\<bar> * \<bar>sin x\<bar>" by (simp add: abs_mult)
  also have "\<dots> \<le> \<bar>a\<bar> * 1"
    using abs_sin_le_one [of x] by (intro mult_left_mono) simp_all
  finally show ?thesis by simp
qed

text \<open>
  Claim C5. A frame at time \<open>t\<close> sets the height of panel \<open>i\<close> to
  0.65 + 0.03 sin(t + i) and the height of the curved screen to 2.1 + 0.05 sin(0.5 t):
  each stays within 0.03, respectively 0.05, of its base height. The panels are set when
  the panel group exists, the screen when the screen mesh exists.
\<close>

theorem render_bobbing:
  "length (panels (render t r s)) = length (panels s) \<and>
   (panelGroup s \<longrightarrow>
      (\<forall>i < length (panels s).
         position_y (panels (render t r s) ! i) = 0.65 + 0.03 * sin (t + real i) \<and>
         \<bar>position_y (panels (render t r s) ! i) - 0.65\<bar> \<le> 0.03)) \<and>
   (curvedScreen s \<noteq> None \<longrightarrow>
      (\<exists>y. curvedScreen (render t r s) = Some y \<and>
           y = 2.1 + 0.05 * sin (0.5 * t) \<and> \<bar>y - 2.1\<bar> \<le> 0.05))"
proof -
  have len: "length (panels (render t r s)) = length (panels s)"
    by (simp add: render_def Let_def split: option.splits)
  have pan: "position_y (panels (render t r s) ! i) = 0.65 + 0.03 * sin (t + real i) \<and>
         \<bar>position_y (panels (render t r s) ! i) - 0.65\<bar> \<le> 0.03"
    if g: "panelGroup s" and i: "i < length (panels s)" for i
  proof -
    have "position_y (panels (render t r s) ! i) = position_y (bob_panels t (panels s) ! i)"
      using g i by (simp add: render_def Let_def position_y_updateHover split: option.splits)
    then have eq: "position_y (panels (render t r s) ! i) = 0.65 + 0.03 * sin (t + real i)"
      using i by (simp add: nth_bob_panels)
    have "\<bar>0.03 * sin (t + real i)\<bar> \<le> \<bar>0.03 :: real\<bar>" by (rule bob_bound)
    with eq show ?thesis by simp
  qed
  have scr: "\<exists>y. curvedScreen (render t r s) = Some y \<and>
           y = 2.1 + 0.05 * sin (0.5 * t) \<and> \<bar>y - 2.1\<bar> \<le> 0.05"
    if "curvedScreen s \<noteq> None"
  proof -
    from that have eq: "curvedScreen (render t r s) = Some (2.1 + 0.05 * sin (0.5 * t))"
      by (auto simp add: render_def Let_def split: option.splits)
    have "\<bar>0.05 * sin (0.5 * t)\<bar> \<le> \<bar>0.05 :: real\<bar>" by (rule bob_bound)
    with eq show ?thesis by simp
  qed
  from len pan scr show ?thesis by blast
qed

theorem render_bobbing_witness:
  "panelGroup playing \<and> curvedScreen playing \<noteq> None \<and> 2 < length (panels playing) \<and>
   position_y (panels (render 0 \<lparr>mouse_hits = [], controller_hits = []\<rparr> playing) ! 2) =
     0.65 + 0.03 * sin 2 \<and>
   curvedScreen (render 0 \<lparr>mouse_hits = [], controller_hits = []\<rparr> playing) = Some 2.1"
proof -
  have h: "panelGroup playing" "curvedScreen playing \<noteq> None" "2 < length (panels playing)"
    by (simp_all add: playing_eq trendingItems_def)
  from render_bobbing [of 0 "\<lparr>mouse_hits = [], controller_hits = []\<rparr>" playing] h
  show ?thesis by auto
qed

subsection \<open>The constants\<close>

lemma playlists_cases:
  assumes "map_of playlists playlistId = Some list"
  shows "playlistId \<in> {''creators'', ''music'', ''gaming'', ''news''} \<and> length list = 2"
  using assms by (auto simp add: playlists_def split: if_splits)

lemma playlists_get_own:
  "map_of playlists playlistId = Some list \<Longrightarrow> playlists_get playlistId = Array list"
  by (simp add: playlists_get_def)

lemma trendingItems_all:
  "list_all (\<lambda>item. case item_playlistId item of
                       None \<Rightarrow> False
                     | Some playlistId \<Rightarrow> playlistId \<noteq> [] \<and> map_of playlists playlistId \<noteq> None)
     trendingItems"
  by (simp add: trendingItems_def playlists_def)

lemma trendingItems_playlist:
  assumes "item \<in> set trendingItems"
  shows "\<exists>playlistId list. item_playlistId item = Some playlistId \<and> playlistId \<noteq> [] \<and>
           map_of playlists playlistId = Some list"
  using assms trendingItems_all
  by (auto simp add: list_all_iff split: option.splits)

lemma length_trendingItems: "length trendingItems = 4"
  by (simp add: trendingItems_def)

lemma js_rem_nonneg:
  "0 \<le> k \<Longrightarrow> 0 < n \<Longrightarrow> js_rem (Num k) (Some n) = Num (k mod int n)"
  by (simp add: sgn_if)

subsection \<open>A call of playFromPlaylist with a playlist of the table\<close>

lemma playFromPlaylist_own:
  assumes "map_of playlists playlistId = Some list" and "0 \<le> k"
  shows "playFromPlaylist playlistId (Num k) s =
    (let i = k mod int (length list);
         s1 = s\<lparr>currentPlaylistId := Some playlistId, currentPlaylistIndex := Num i\<rparr>
     in case htmlVideo s of
          None \<Rightarrow> reportError ''playFromPlaylist'' s1
        | Some v \<Rightarrow>
           let v1 = v\<lparr>paused := True, src := list ! nat i\<rparr>;
               s2 = s1\<lparr>htmlVideo := Some v1, isPlaying := False\<rparr>
           in (case videoTexture s of
                 None \<Rightarrow> reportError ''playFromPlaylist'' s2
               | Some _ \<Rightarrow>
                  s2\<lparr>videoTexture := Some True,
                     htmlVideo := Some (v1\<lparr>onloadeddata := Some (),
                                            onended := Some (playlistId, Array list)\<rparr>)\<rparr>))"
proof -
  from assms(1) have len: "length list = 2" by (simp add: playlists_cases)
  then have ne: "list \<noteq> []" by auto
  have get: "playlists_get playlistId = Array list"
    using assms(1) by (rule playlists_get_own)
  have rem: "js_rem (Num k) (Some (length list)) = Num (k mod int (length list))"
    by (rule js_rem_nonneg) (use assms(2) len in simp_all)
  have idx: "js_index (Array list) (Num (k mod int (length list))) =
      Some (list ! nat (k mod int (length list)))"
    using len by simp
  show ?thesis
    unfolding playFromPlaylist_def get
    by (simp add: Let_def rem idx ne split: option.splits
        del: js_rem.simps js_index.simps)
qed

subsection \<open>Playback leaves the scene alone\<close>

lemma scene_reportError [simp]: "scene (reportError stage s) = scene s"
  by (simp add: reportError_def scene_def)

lemma scene_playVideo [simp]: "scene (playVideo s) = scene s"
  by (simp add: playVideo_def scene_def split: option.splits)

lemma scene_playVideo_then [simp]: "scene (playVideo_then s) = scene s"
  by (simp add: playVideo_then_def scene_def)

lemma scene_playVideo_catch [simp]: "scene (playVideo_catch aborted s) = scene s"
  by (simp add: playVideo_catch_def)

lemma scene_pauseVideo [simp]: "scene (pauseVideo s) = scene s"
  by (simp add: pauseVideo_def scene_def split: option.splits)

lemma scene_ensureAudioEnabled [simp]: "scene (ensureAudioEnabled s) = scene s"
  by (simp add: ensureAudioEnabled_def scene_def split: option.splits)

lemma scene_toggleMute [simp]: "scene (toggleMute s) = scene s"
  by (simp add: toggleMute_def scene_def split: option.splits)

lemma scene_changeVolume [simp]: "scene (changeVolume delta s) = scene s"
  by (simp add: changeVolume_def scene_def Let_def split: option.splits)

lemma scene_seekBy [simp]: "scene (seekBy deltaSeconds s) = scene s"
  by (simp add: seekBy_def scene_def Let_def split: option.splits)

lemma scene_media_progress [simp]: "scene (media_progress now whole stopped s) = scene s"
  by (simp add: media_progress_def scene_def split: option.splits)

lemma scene_video_error [simp]: "scene (video_error has_error s) = scene s"
  by (simp add: video_error_def)

lemma scene_playFromPlaylist [simp]:
  "scene (playFromPlaylist playlistId startIndex s) = scene s"
  by (simp add: playFromPlaylist_def Let_def scene_def reportError_def split: option.splits)

lemma scene_onended_handler [simp]: "scene (onended_handler closure s) = scene s"
  by (simp add: onended_handler_def Let_def split: prod.splits)

lemma scene_video_ended [simp]: "scene (video_ended s) = scene s"
  by (simp add: video_ended_def split: option.splits)

lemma scene_video_loadeddata [simp]: "scene (video_loadeddata s) = scene s"
proof -
  have "scene (s\<lparr>videoTexture := Some False, curvedScreen := Some 3\<rparr>) = scene s"
    by (simp add: scene_def)
  then show ?thesis
    by (simp add: video_loadeddata_def Let_def split: option.splits)
qed

lemma scene_activatePanel [simp]: "scene (activatePanel panel s) = scene s"
proof -
  have "scene (s\<lparr>currentItem := x\<rparr>) = scene s" for x
    by (simp add: scene_def)
  then show ?thesis
    by (simp add: activatePanel_def Let_def split: option.splits)
qed

lemma scene_click_load_video [simp]: "scene (click_load_video urlInput s) = scene s"
  by (simp add: click_load_video_def Let_def split: option.splits) (simp add: scene_def)

lemma scene_step:
  assumes "\<And>t r. e \<noteq> Frame t r"
  shows "scene (step s e) = scene s"
  using assms
  by (cases e)
    (auto simp add: window_click_def onXRSelect_def click_play_pause_def click_unmute_def
      click_seek_back_def click_seek_forward_def click_vol_down_def click_vol_up_def
      split: option.splits list.splits)

subsection \<open>The hover highlight\<close>

lemma controllers_loop_bound:
  assumes "\<forall>(visible, hits) \<in> set cs. \<forall>hit \<in> set hits. hit < n"
    and "controllers_loop cs = Some h"
  shows "h < n"
  using assms
  by (induction cs rule: controllers_loop.induct) (auto split: if_splits list.splits)

lemma getHoveredPanel_bound:
  assumes "rays_ok r" and "getHoveredPanel r = Some h"
  shows "h < length trendingItems"
proof (cases "mouse_hits r")
  case Nil
  with assms show ?thesis
    by (auto simp add: getHoveredPanel_def rays_ok_def intro: controllers_loop_bound)
next
  case (Cons hit hits)
  with assms show ?thesis
    by (auto simp add: getHoveredPanel_def rays_ok_def)
qed

lemma reset_panel_plain: "has_emissive m \<Longrightarrow> plain (reset_panel m)"
  by (auto simp add: has_emissive_def plain_def reset_panel_def intensity_def Let_def
      split: option.splits)

lemma highlight_panel_highlighted: "has_emissive m \<Longrightarrow> highlighted (highlight_panel m)"
  by (auto simp add: has_emissive_def highlighted_def highlight_panel_def intensity_def Let_def
      split: option.splits)

lemma reset_panel_keeps [simp]:
  "userData_item (reset_panel m) = userData_item m"
  "has_emissive (reset_panel m) = has_emissive m"
  by (auto simp add: has_emissive_def reset_panel_def Let_def split: option.splits)

lemma highlight_panel_keeps [simp]:
  "userData_item (highlight_panel m) = userData_item m"
  "has_emissive (highlight_panel m) = has_emissive m"
  by (auto simp add: has_emissive_def highlight_panel_def Let_def split: option.splits)

lemma bob_panels_keeps:
  assumes "i < length ms"
  shows "userData_item (bob_panels t ms ! i) = userData_item (ms ! i)"
    and "has_emissive (bob_panels t ms ! i) = has_emissive (ms ! i)"
    and "highlighted (bob_panels t ms ! i) = highlighted (ms ! i)"
    and "plain (bob_panels t ms ! i) = plain (ms ! i)"
  using assms
  by (simp_all add: nth_bob_panels has_emissive_def highlighted_def plain_def intensity_def)


text \<open>What \<^verbatim>\<open>updateHover\<close> does to the panels, panel by panel.\<close>

lemma hoveredPanel_updateHover [simp]:
  "hoveredPanel (updateHover r s) = getHoveredPanel r"
  by (simp add: updateHover_def Let_def split: option.splits)

lemma panelGroup_updateHover [simp]:
  "panelGroup (updateHover r s) = panelGroup s"
  by (simp add: updateHover_def Let_def split: option.splits)

lemma nth_updateHover:
  assumes "i < length (panels s)"
    and "case getHoveredPanel r of None \<Rightarrow> True | Some h \<Rightarrow> h < length (panels s)"
  shows "panels (updateHover r s) ! i =
    (if getHoveredPanel r = Some i then highlight_panel (panels s ! i)
     else if hoveredPanel s = Some i then reset_panel (panels s ! i)
     else panels s ! i)"
  using assms
  by (auto simp add: updateHover_def Let_def nth_update_panel split: option.splits)

lemma hover_ok_updateHover:
  assumes "hover_ok s"
    and "\<forall>i < length (panels s). has_emissive (panels s ! i)"
    and "case getHoveredPanel r of None \<Rightarrow> True | Some h \<Rightarrow> h < length (panels s)"
  shows "hover_ok (updateHover r s)"
  unfolding hover_ok_def
proof (intro conjI allI impI)
  show "case hoveredPanel (updateHover r s) of None \<Rightarrow> True
        | Some h \<Rightarrow> h < length (panels (updateHover r s))"
    using assms(3) by (simp split: option.splits)
next
  fix i
  assume "i < length (panels (updateHover r s))"
  then have i: "i < length (panels s)" by simp
  from assms(1) i have old: "hoveredPanel s \<noteq> Some i \<Longrightarrow> plain (panels s ! i)"
    by (simp add: hover_ok_def)
  from assms(2) i have em: "has_emissive (panels s ! i)" by simp
  show "if hoveredPanel (updateHover r s) = Some i
        then highlighted (panels (updateHover r s) ! i)
        else plain (panels (updateHover r s) ! i)"
    using old em
    by (simp add: nth_updateHover [OF i assms(3)] reset_panel_plain highlight_panel_highlighted)
qed

subsection \<open>The state after the start\<close>

lemma setupVideoScreen_Some:
  "setupVideoScreen (Some v) s =
    Returned (s\<lparr>currentPlaylistId := Some ''creators'', currentPlaylistIndex := Num 0,
      htmlVideo := Some (v\<lparr>muted := True, loop := True,
        src := ''https://commondatastorage.googleapis.com/gtv-videos-bucket/sample/BigBuckBunny.mp4''\<rparr>)\<rparr>)"
  by (simp add: setupVideoScreen_def Let_def trendingItems_def playlists_get_def playlists_def)

lemma start_Returned:
  assumes "start element = Returned s0"
  obtains v where "element = Some v"
    and "s0 =
      \<lparr>panels = map new_panel trendingItems, panelGroup = True, curvedScreen = None,
       videoTexture = None,
       htmlVideo = Some (v\<lparr>muted := True, loop := True,
         src := ''https://commondatastorage.googleapis.com/gtv-videos-bucket/sample/BigBuckBunny.mp4''\<rparr>),
       currentItem = Some (trendingItems ! 0), currentPlaylistId = Some ''creators'',
       currentPlaylistIndex = Num 0, audioEnabled = False, isPlaying = False,
       hoveredPanel = None, errors = []\<rparr>"
proof (cases element)
  case None
  with assms show ?thesis
    by (simp add: start_def setupVideoScreen_def)
next
  case (Some v)
  have hd: "(case trendingItems of [] \<Rightarrow> None | item # _ \<Rightarrow> Some item) =
      Some (trendingItems ! 0)"
    by (simp add: trendingItems_def)
  from assms Some have "s0 =
      \<lparr>panels = map new_panel trendingItems, panelGroup = True, curvedScreen = None,
       videoTexture = None,
       htmlVideo = Some (v\<lparr>muted := True, loop := True,
         src := ''https://commondatastorage.googleapis.com/gtv-videos-bucket/sample/BigBuckBunny.mp4''\<rparr>),
       currentItem = Some (trendingItems ! 0), currentPlaylistId = Some ''creators'',
       currentPlaylistIndex = Num 0, audioEnabled = False, isPlaying = False,
       hoveredPanel = None, errors = []\<rparr>"
    by (simp add: start_def setupVideoScreen_Some setupPanels_def globals_def hd)
  with Some that show ?thesis by blast
qed

subsection \<open>The scene in every state of a run\<close>

lemma panels_ok_scene: "scene s' = scene s \<Longrightarrow> panels_ok s' = panels_ok s"
  by (simp add: scene_def panels_ok_def)

lemma hover_ok_scene:
  assumes "scene s' = scene s"
  shows "hover_ok s' = hover_ok s"
proof -
  from assms have "panels s' = panels s" and "hoveredPanel s' = hoveredPanel s"
    by (simp_all add: scene_def)
  then show ?thesis
    by (simp add: hover_ok_def cong: option.case_cong)
qed

lemma render_updateHover:
  assumes "panelGroup s"
  obtains c where
    "render t r s = updateHover r (s\<lparr>panels := bob_panels t (panels s), curvedScreen := c\<rparr>)"
proof (cases "curvedScreen s")
  case None
  then have "s\<lparr>panels := bob_panels t (panels s)\<rparr> =
      s\<lparr>panels := bob_panels t (panels s), curvedScreen := None\<rparr>"
    by simp
  then have eq: "s\<lparr>panels := bob_panels t (panels s), curvedScreen := None\<rparr> =
      s\<lparr>panels := bob_panels t (panels s)\<rparr>"
    by simp
  from assms None have "render t r s = updateHover r (s\<lparr>panels := bob_panels t (panels s)\<rparr>)"
    by (simp add: render_def)
  then have
    "render t r s = updateHover r (s\<lparr>panels := bob_panels t (panels s), curvedScreen := None\<rparr>)"
    by (simp only: eq)
  then show ?thesis by (rule that)
next
  case (Some y)
  with assms have
    "render t r s = updateHover r (s\<lparr>panels := bob_panels t (panels s),
        curvedScreen := Some (2.1 + sin (t * 0.5) * 0.05)\<rparr>)"
    by (simp add: render_def)
  then show ?thesis by (rule that)
qed

lemma run_snoc [simp]: "run s (events @ [e]) = step (run s events) e"
  by (simp add: run_def)

lemma run_Nil [simp]: "run s [] = s"
  by (simp add: run_def)

lemma scene_start:
  assumes "start element = Returned s0"
  shows "scene s0 = (map new_panel trendingItems, True, None)"
  using assms by (rule start_Returned) (simp add: scene_def)

lemma scene_ok_start:
  assumes "start element = Returned s0"
  shows "panels_ok s0 \<and> hover_ok s0"
proof -
  from scene_start [OF assms]
  have p: "panels s0 = map new_panel trendingItems" and g: "panelGroup s0"
    and h: "hoveredPanel s0 = None"
    by (simp_all add: scene_def)
  have "panels_ok s0"
    by (simp add: panels_ok_def p g new_panel_def has_emissive_def)
  moreover have "hover_ok s0"
    by (simp add: hover_ok_def p h new_panel_def plain_def intensity_def)
  ultimately show ?thesis ..
qed

lemma scene_ok_render:
  assumes "panels_ok s" and "hover_ok s" and "rays_ok r"
  shows "panels_ok (render t r s) \<and> hover_ok (render t r s)"
proof -
  from assms(1) have g: "panelGroup s" and len: "length (panels s) = length trendingItems"
    by (simp_all add: panels_ok_def)
  from g obtain c where
    r: "render t r s = updateHover r (s\<lparr>panels := bob_panels t (panels s), curvedScreen := c\<rparr>)"
    by (rule render_updateHover)
  define s2 where "s2 = s\<lparr>panels := bob_panels t (panels s), curvedScreen := c\<rparr>"
  have p2: "panels s2 = bob_panels t (panels s)" and h2: "hoveredPanel s2 = hoveredPanel s"
    and g2: "panelGroup s2"
    using g by (simp_all add: s2_def)
  have len2: "length (panels s2) = length trendingItems"
    by (simp add: p2 len)
  have em2: "\<forall>i < length (panels s2). has_emissive (panels s2 ! i)"
    using assms(1) by (simp add: p2 bob_panels_keeps panels_ok_def)
  have it2: "\<forall>i < length (panels s2). userData_item (panels s2 ! i) = Some (trendingItems ! i)"
    using assms(1) by (simp add: p2 bob_panels_keeps panels_ok_def)
  have hov2: "hover_ok s2"
    using assms(2) by (simp add: hover_ok_def p2 h2 bob_panels_keeps split: option.splits)
  have hit: "case getHoveredPanel r of None \<Rightarrow> True | Some h \<Rightarrow> h < length (panels s2)"
    using getHoveredPanel_bound [OF assms(3)] by (simp add: len2 split: option.splits)
  have "hover_ok (updateHover r s2)"
    using hov2 em2 hit by (rule hover_ok_updateHover)
  moreover have "panels_ok (updateHover r s2)"
    unfolding panels_ok_def
  proof (intro conjI allI impI)
    show "panelGroup (updateHover r s2)" by (simp add: g2)
    show "length (panels (updateHover r s2)) = length trendingItems" by (simp add: len2)
    fix i assume "i < length trendingItems"
    then have i: "i < length (panels s2)" by (simp add: len2)
    from em2 it2 i
    show "userData_item (panels (updateHover r s2) ! i) = Some (trendingItems ! i)"
      and "has_emissive (panels (updateHover r s2) ! i)"
      by (simp_all add: nth_updateHover [OF i hit])
  qed
  ultimately show ?thesis by (simp add: r s2_def)
qed

lemma scene_ok_step:
  assumes "panels_ok s" and "hover_ok s" and "event_ok e"
  shows "panels_ok (step s e) \<and> hover_ok (step s e)"
proof (cases "\<exists>t r. e = Frame t r")
  case True
  then obtain t r where e: "e = Frame t r" by blast
  from assms(3) have "rays_ok r" by (simp add: e)
  with assms(1,2) have "panels_ok (render t r s) \<and> hover_ok (render t r s)"
    by (rule scene_ok_render)
  then show ?thesis by (simp add: e)
next
  case False
  then have "\<And>t r. e \<noteq> Frame t r" by blast
  then have "scene (step s e) = scene s" by (rule scene_step)
  then have "panels_ok (step s e) = panels_ok s" and "hover_ok (step s e) = hover_ok s"
    by (rule panels_ok_scene, rule hover_ok_scene)
  with assms(1,2) show ?thesis by simp
qed


lemma hoveredPanel_render [simp]: "hoveredPanel (render t r s) = getHoveredPanel r"
  by (simp add: render_def Let_def split: option.splits)



subsection \<open>The playlist cursor in every state of a run\<close>

lemma playlist_ok_iff:
  "playlist_ok s \<longleftrightarrow>
    (\<exists>v. htmlVideo s = Some v \<and>
       (\<forall>p l. onended v = Some (p, l) \<longrightarrow>
          videoTexture s \<noteq> None \<and> currentPlaylistId s = Some p \<and> l = playlists_get p)) \<and>
    (\<forall>p. currentPlaylistId s = Some p \<longrightarrow>
       (\<exists>list i. map_of playlists p = Some list \<and> currentPlaylistIndex s = Num i \<and>
          0 \<le> i \<and> i < int (length list))) \<and>
    (\<exists>item. currentItem s = Some item \<and> item \<in> set trendingItems)"
  by (auto simp add: playlist_ok_def split: option.splits jsnum.splits prod.splits)

lemma playlist_ok_reportError [simp]:
  "playlist_ok (reportError stage s) = playlist_ok s"
  by (simp add: playlist_ok_iff reportError_def)

lemma playlist_ok_video_update:
  assumes "playlist_ok s" and "htmlVideo s = Some v" and "onended v' = onended v"
  shows "playlist_ok (s\<lparr>htmlVideo := Some v'\<rparr>)"
  using assms by (simp add: playlist_ok_iff)

lemma playlist_ok_isPlaying [simp]:
  "playlist_ok (s\<lparr>isPlaying := b\<rparr>) = playlist_ok s"
  by (simp add: playlist_ok_iff)

lemma playlist_ok_audioEnabled [simp]:
  "playlist_ok (s\<lparr>audioEnabled := b\<rparr>) = playlist_ok s"
  by (simp add: playlist_ok_iff)

lemma playlist_ok_playVideo: "playlist_ok s \<Longrightarrow> playlist_ok (playVideo s)"
  by (auto simp add: playVideo_def split: option.splits intro: playlist_ok_video_update)

lemma playlist_ok_playVideo_then: "playlist_ok s \<Longrightarrow> playlist_ok (playVideo_then s)"
  by (simp add: playVideo_then_def)

lemma playlist_ok_playVideo_catch:
  "playlist_ok s \<Longrightarrow> playlist_ok (playVideo_catch aborted s)"
  by (simp add: playVideo_catch_def)

lemma playlist_ok_pauseVideo: "playlist_ok s \<Longrightarrow> playlist_ok (pauseVideo s)"
  by (auto simp add: pauseVideo_def playlist_ok_iff split: option.splits)

lemma playlist_ok_ensureAudioEnabled:
  "playlist_ok s \<Longrightarrow> playlist_ok (ensureAudioEnabled s)"
  by (auto simp add: ensureAudioEnabled_def playlist_ok_iff split: option.splits)

lemma playlist_ok_toggleMute: "playlist_ok s \<Longrightarrow> playlist_ok (toggleMute s)"
  by (auto simp add: toggleMute_def playlist_ok_iff split: option.splits)

lemma playlist_ok_changeVolume: "playlist_ok s \<Longrightarrow> playlist_ok (changeVolume delta s)"
  by (auto simp add: changeVolume_def playlist_ok_iff Let_def split: option.splits)

lemma playlist_ok_seekBy: "playlist_ok s \<Longrightarrow> playlist_ok (seekBy deltaSeconds s)"
  by (auto simp add: seekBy_def playlist_ok_iff Let_def split: option.splits)

lemma playlist_ok_media_progress:
  "playlist_ok s \<Longrightarrow> playlist_ok (media_progress now whole stopped s)"
  by (auto simp add: media_progress_def playlist_ok_iff split: option.splits)

lemma playlist_ok_video_error: "playlist_ok s \<Longrightarrow> playlist_ok (video_error has_error s)"
  by (simp add: video_error_def)

lemma playlist_ok_texture:
  "playlist_ok s \<Longrightarrow> playlist_ok (s\<lparr>videoTexture := Some b, curvedScreen := c\<rparr>)"
  by (auto simp add: playlist_ok_iff split: option.splits)

lemma playlist_ok_video_loadeddata:
  assumes "playlist_ok s"
  shows "playlist_ok (video_loadeddata s)"
proof -
  have "playlist_ok (playVideo (s\<lparr>videoTexture := Some False, curvedScreen := Some 3\<rparr>))"
    using assms by (intro playlist_ok_playVideo playlist_ok_texture)
  then show ?thesis
    by (simp add: video_loadeddata_def Let_def playlist_ok_playVideo split: option.splits)
qed

lemma playlist_ok_playFromPlaylist:
  assumes "playlist_ok s" and "map_of playlists playlistId = Some list" and "0 \<le> k"
  shows "playlist_ok (playFromPlaylist playlistId (Num k) s)"
proof -
  from assms(2) have len: "length list = 2" by (simp add: playlists_cases)
  have get: "playlists_get playlistId = Array list"
    using assms(2) by (rule playlists_get_own)
  have bound: "0 \<le> k mod int (length list)" "k mod int (length list) < int (length list)"
    using len by simp_all
  from assms(1) obtain v where v: "htmlVideo s = Some v"
    by (auto simp add: playlist_ok_iff split: option.splits)
  from assms(1) obtain item where item: "currentItem s = Some item" "item \<in> set trendingItems"
    by (auto simp add: playlist_ok_iff)
  from assms(1) v have tex: "videoTexture s = None \<Longrightarrow> onended v = None"
    by (cases "onended v") (auto simp add: playlist_ok_iff)
  show ?thesis
  proof (cases "videoTexture s")
    case None
    with v tex item bound show ?thesis
      by (simp add: playFromPlaylist_own [OF assms(2,3)] Let_def playlist_ok_iff assms(2)
          reportError_def)
  next
    case (Some b)
    with v item bound show ?thesis
      by (simp add: playFromPlaylist_own [OF assms(2,3)] Let_def playlist_ok_iff assms(2) get)
  qed
qed

lemma updateHover_other [simp]:
  "htmlVideo (updateHover r s) = htmlVideo s"
  "videoTexture (updateHover r s) = videoTexture s"
  "currentItem (updateHover r s) = currentItem s"
  "currentPlaylistId (updateHover r s) = currentPlaylistId s"
  "currentPlaylistIndex (updateHover r s) = currentPlaylistIndex s"
  "audioEnabled (updateHover r s) = audioEnabled s"
  "isPlaying (updateHover r s) = isPlaying s"
  "errors (updateHover r s) = errors s"
  by (simp_all add: updateHover_def Let_def split: option.splits)

lemma render_other [simp]:
  "htmlVideo (render t r s) = htmlVideo s"
  "videoTexture (render t r s) = videoTexture s"
  "currentItem (render t r s) = currentItem s"
  "currentPlaylistId (render t r s) = currentPlaylistId s"
  "currentPlaylistIndex (render t r s) = currentPlaylistIndex s"
  "audioEnabled (render t r s) = audioEnabled s"
  "isPlaying (render t r s) = isPlaying s"
  "errors (render t r s) = errors s"
  by (simp_all add: render_def Let_def split: option.splits)

lemma playlist_ok_render [simp]: "playlist_ok (render t r s) = playlist_ok s"
  by (simp add: playlist_ok_iff)

text \<open>What the handler for \<^verbatim>\<open>ended\<close> does when there is one.\<close>

lemma onended_handler_next:
  assumes "playlist_ok s" and "htmlVideo s = Some v" and "onended v = Some (p, l)"
  obtains list i where "map_of playlists p = Some list" and "l = Array list"
    and "currentPlaylistId s = Some p" and "currentPlaylistIndex s = Num i"
    and "0 \<le> i" and "i < int (length list)"
    and "onended_handler (p, l) s =
      playFromPlaylist p (Num ((i + 1) mod int (length list))) s"
proof -
  from assms have p: "currentPlaylistId s = Some p" and l: "l = playlists_get p"
    by (auto simp add: playlist_ok_iff)
  from assms(1) p obtain list i where list: "map_of playlists p = Some list"
    and i: "currentPlaylistIndex s = Num i" "0 \<le> i" "i < int (length list)"
    by (auto simp add: playlist_ok_iff)
  from list l have arr: "l = Array list"
    by (simp add: playlists_get_own)
  from i have pos: "0 < length list" by auto
  have "js_rem (Num (i + 1)) (Some (length list)) = Num ((i + 1) mod int (length list))"
    by (rule js_rem_nonneg) (use i pos in simp_all)
  then have "onended_handler (p, l) s =
      playFromPlaylist p (Num ((i + 1) mod int (length list))) s"
    using arr i(1) by (simp add: onended_handler_def Let_def del: js_rem.simps)
  with list arr p i that show ?thesis by blast
qed

lemma playlist_ok_onended_handler:
  assumes "playlist_ok s" and "htmlVideo s = Some v" and "onended v = Some closure"
  shows "playlist_ok (onended_handler closure s)"
proof -
  obtain p l where c: "closure = (p, l)" by (cases closure)
  from assms(1,2) assms(3) [unfolded c]
  obtain list i where list: "map_of playlists p = Some list"
    and e: "onended_handler (p, l) s =
      playFromPlaylist p (Num ((i + 1) mod int (length list))) s"
    and i: "0 \<le> i" "i < int (length list)"
    by (rule onended_handler_next)
  from i have "0 < int (length list)" by linarith
  then have "0 \<le> (i + 1) mod int (length list)" by (rule pos_mod_sign)
  with assms(1) list show ?thesis
    unfolding c e by (rule playlist_ok_playFromPlaylist)
qed

lemma playlist_ok_video_ended:
  assumes "playlist_ok s"
  shows "playlist_ok (video_ended s)"
  using assms
  by (auto simp add: video_ended_def playlist_ok_onended_handler split: option.splits)

lemma playlist_ok_activatePanel:
  assumes "playlist_ok s"
    and "\<And>m item. panel = Some m \<Longrightarrow> userData_item m = Some item \<Longrightarrow>
           item \<in> set trendingItems"
  shows "playlist_ok (activatePanel panel s)"
proof (cases panel)
  case None
  with assms(1) show ?thesis by (simp add: activatePanel_def)
next
  case (Some m)
  show ?thesis
  proof (cases "userData_item m")
    case None
    with Some assms(1) show ?thesis by (simp add: activatePanel_def)
  next
    case (Some item)
    with \<open>panel = Some m\<close> assms(2) have item: "item \<in> set trendingItems" by blast
    then obtain playlistId list where pl: "item_playlistId item = Some playlistId"
      "playlistId \<noteq> []" "map_of playlists playlistId = Some list"
      using trendingItems_playlist by blast
    from assms(1) item have "playlist_ok (s\<lparr>currentItem := Some item\<rparr>)"
      by (simp add: playlist_ok_iff)
    then have "playlist_ok (ensureAudioEnabled (s\<lparr>currentItem := Some item\<rparr>))"
      by (rule playlist_ok_ensureAudioEnabled)
    then have "playlist_ok (playFromPlaylist playlistId (Num 0)
        (ensureAudioEnabled (s\<lparr>currentItem := Some item\<rparr>)))"
      using pl(3) by (rule playlist_ok_playFromPlaylist) simp
    with Some \<open>panel = Some m\<close> pl show ?thesis
      by (simp add: activatePanel_def Let_def)
  qed
qed

lemma panel_at_item:
  assumes "panels_ok s" and "panel_at s hit = Some m" and "userData_item m = Some item"
  shows "hit < length trendingItems \<and> item = trendingItems ! hit \<and> item \<in> set trendingItems"
  using assms by (auto simp add: panels_ok_def panel_at_def split: if_splits)

lemma playlist_ok_click_load_video:
  assumes "playlist_ok s"
  shows "playlist_ok (click_load_video urlInput s)"
proof -
  define customUrl where
    "customUrl = (case urlInput of Some val \<Rightarrow> trim val | None \<Rightarrow> [])"
  from assms obtain v where v: "htmlVideo s = Some v"
    by (auto simp add: playlist_ok_iff)
  from assms obtain item where item: "currentItem s = Some item" "item \<in> set trendingItems"
    by (auto simp add: playlist_ok_iff)
  show ?thesis
  proof (cases "customUrl = []")
    case True
    from item(2) obtain playlistId list where pl: "item_playlistId item = Some playlistId"
      "playlistId \<noteq> []" "map_of playlists playlistId = Some list"
      using trendingItems_playlist by blast
    have "playlist_ok (playFromPlaylist playlistId (Num 0) s)"
      using assms pl(3) by (rule playlist_ok_playFromPlaylist) simp
    with True item pl show ?thesis
      by (simp add: click_load_video_def customUrl_def [symmetric] Let_def)
  next
    case False
    from assms v have tex: "videoTexture s = None \<Longrightarrow> onended v = None"
      by (cases "onended v") (auto simp add: playlist_ok_iff)
    show ?thesis
    proof (cases "videoTexture s")
      case None
      with False v tex item show ?thesis
        by (simp add: click_load_video_def customUrl_def [symmetric] Let_def playlist_ok_iff
            reportError_def)
    next
      case (Some b)
      with False v item show ?thesis
        by (simp add: click_load_video_def customUrl_def [symmetric] Let_def playlist_ok_iff)
    qed
  qed
qed

lemma playlist_ok_activate_hit:
  assumes "panels_ok s" and "playlist_ok s"
  shows "playlist_ok (activatePanel (panel_at s hit) s)"
  using assms(2)
proof (rule playlist_ok_activatePanel)
  fix m item
  assume "panel_at s hit = Some m" and "userData_item m = Some item"
  with assms(1) show "item \<in> set trendingItems"
    by (simp add: panel_at_item)
qed

lemma playlist_ok_step:
  assumes "panels_ok s" and "playlist_ok s"
  shows "playlist_ok (step s e)"
proof (cases e)
  case (Frame t r)
  with assms(2) show ?thesis by simp
next
  case (Click r)
  with assms show ?thesis
    by (simp add: window_click_def playlist_ok_activate_hit split: option.splits)
next
  case (XRSelect hits)
  with assms show ?thesis
    by (simp add: onXRSelect_def playlist_ok_activate_hit split: list.splits)
next
  case (LoadVideo urlInput)
  with assms(2) show ?thesis by (simp add: playlist_ok_click_load_video)
next
  case PlayPause
  with assms(2) show ?thesis
    by (simp add: click_play_pause_def playlist_ok_ensureAudioEnabled playlist_ok_pauseVideo
        playlist_ok_playVideo)
next
  case Unmute
  with assms(2) show ?thesis by (simp add: click_unmute_def playlist_ok_toggleMute)
next
  case SeekBack
  with assms(2) show ?thesis by (simp add: click_seek_back_def playlist_ok_seekBy)
next
  case SeekForward
  with assms(2) show ?thesis by (simp add: click_seek_forward_def playlist_ok_seekBy)
next
  case VolDown
  with assms(2) show ?thesis by (simp add: click_vol_down_def playlist_ok_changeVolume)
next
  case VolUp
  with assms(2) show ?thesis by (simp add: click_vol_up_def playlist_ok_changeVolume)
next
  case Loadeddata
  with assms(2) show ?thesis by (simp add: playlist_ok_video_loadeddata)
next
  case Ended
  with assms(2) show ?thesis by (simp add: playlist_ok_video_ended)
next
  case (VideoError has_error)
  with assms(2) show ?thesis by (simp add: playlist_ok_video_error)
next
  case PlayResolved
  with assms(2) show ?thesis by (simp add: playlist_ok_playVideo_then)
next
  case (PlayRejected aborted)
  with assms(2) show ?thesis by (simp add: playlist_ok_playVideo_catch)
next
  case (Progress now whole stopped)
  with assms(2) show ?thesis by (simp add: playlist_ok_media_progress)
qed

lemma playlist_ok_start:
  assumes "start (Some v) = Returned s0" and "pristine v"
  shows "playlist_ok s0"
  using assms(1)
proof (rule start_Returned)
  fix v'
  assume "Some v = Some v'" and "s0 =
      \<lparr>panels = map new_panel trendingItems, panelGroup = True, curvedScreen = None,
       videoTexture = None,
       htmlVideo = Some (v'\<lparr>muted := True, loop := True,
         src := ''https://commondatastorage.googleapis.com/gtv-videos-bucket/sample/BigBuckBunny.mp4''\<rparr>),
       currentItem = Some (trendingItems ! 0), currentPlaylistId = Some ''creators'',
       currentPlaylistIndex = Num 0, audioEnabled = False, isPlaying = False,
       hoveredPanel = None, errors = []\<rparr>"
  with assms(2) show ?thesis
    by (simp add: playlist_ok_iff pristine_def playlists_def length_trendingItems)
qed

lemma invariant_run:
  assumes "start (Some v) = Returned s0" and "pristine v" and "list_all event_ok events"
  shows "invariant (run s0 events)"
  using assms(3)
proof (induction events rule: rev_induct)
  case Nil
  from scene_ok_start [OF assms(1)] playlist_ok_start [OF assms(1,2)] show ?case
    by (simp add: invariant_def)
next
  case (snoc e events)
  from snoc.prems have "list_all event_ok events" and e: "event_ok e" by simp_all
  with snoc.IH have inv: "panels_ok (run s0 events)" "hover_ok (run s0 events)"
      "playlist_ok (run s0 events)"
    by (simp_all add: invariant_def)
  from inv(1,2) e
  have "panels_ok (step (run s0 events) e) \<and> hover_ok (step (run s0 events) e)"
    by (rule scene_ok_step)
  moreover from inv(1,3) have "playlist_ok (step (run s0 events) e)"
    by (rule playlist_ok_step)
  ultimately show ?case by (simp add: invariant_def)
qed

lemma pristine_fresh: "pristine fresh_video"
  by (simp add: pristine_def fresh_video_def)

subsection \<open>The load button\<close>

lemma click_load_video_custom:
  assumes "playlist_ok s" and "customUrl = (case urlInput of Some val \<Rightarrow> trim val | None \<Rightarrow> [])"
    and "customUrl \<noteq> []"
  shows "map_option src (htmlVideo (click_load_video urlInput s)) = Some customUrl"
    and "currentPlaylistId (click_load_video urlInput s) = None"
    and "map_option onended (htmlVideo (click_load_video urlInput s)) = Some None"
proof -
  from assms(1) obtain v where v: "htmlVideo s = Some v"
    by (auto simp add: playlist_ok_iff)
  from assms(1) v have tex: "videoTexture s = None \<Longrightarrow> onended v = None"
    by (cases "onended v") (auto simp add: playlist_ok_iff)
  have "map_option src (htmlVideo (click_load_video urlInput s)) = Some customUrl \<and>
    currentPlaylistId (click_load_video urlInput s) = None \<and>
    map_option onended (htmlVideo (click_load_video urlInput s)) = Some None"
  proof (cases "videoTexture s")
    case None
    with v tex assms(3) show ?thesis
      by (simp add: click_load_video_def assms(2) [symmetric] Let_def reportError_def)
  next
    case (Some b)
    with v assms(3) show ?thesis
      by (simp add: click_load_video_def assms(2) [symmetric] Let_def)
  qed
  then show "map_option src (htmlVideo (click_load_video urlInput s)) = Some customUrl"
    and "currentPlaylistId (click_load_video urlInput s) = None"
    and "map_option onended (htmlVideo (click_load_video urlInput s)) = Some None"
    by simp_all
qed

lemma click_load_video_empty:
  assumes "(case urlInput of Some val \<Rightarrow> trim val | None \<Rightarrow> []) = []"
  shows "click_load_video urlInput x =
    (case currentItem x of
       None \<Rightarrow> playFromPlaylist ''creators'' (Num 0) x
     | Some item \<Rightarrow>
        (case item_playlistId item of
           None \<Rightarrow> playFromPlaylist ''creators'' (Num 0) x
         | Some p \<Rightarrow>
            if p \<noteq> [] then playFromPlaylist p (Num 0) x
            else playFromPlaylist ''creators'' (Num 0) x))"
  using assms by (simp add: click_load_video_def Let_def)

lemma video_ended_no_handler:
  "map_option onended (htmlVideo s) = Some None \<Longrightarrow> video_ended s = s"
  by (auto simp add: video_ended_def split: option.splits)

lemma playFromPlaylist_first:
  assumes "playlist_ok s" and "map_of playlists p = Some list"
  shows "currentPlaylistId (playFromPlaylist p (Num 0) s) = Some p"
    and "currentPlaylistIndex (playFromPlaylist p (Num 0) s) = Num 0"
    and "map_option src (htmlVideo (playFromPlaylist p (Num 0) s)) = Some (list ! 0)"
proof -
  from assms(1) obtain v where v: "htmlVideo s = Some v"
    by (auto simp add: playlist_ok_iff)
  have "currentPlaylistId (playFromPlaylist p (Num 0) s) = Some p \<and>
    currentPlaylistIndex (playFromPlaylist p (Num 0) s) = Num 0 \<and>
    map_option src (htmlVideo (playFromPlaylist p (Num 0) s)) = Some (list ! 0)"
    using v
    by (cases "videoTexture s")
      (simp_all add: playFromPlaylist_own [OF assms(2)] Let_def reportError_def)
  then show "currentPlaylistId (playFromPlaylist p (Num 0) s) = Some p"
    and "currentPlaylistIndex (playFromPlaylist p (Num 0) s) = Num 0"
    and "map_option src (htmlVideo (playFromPlaylist p (Num 0) s)) = Some (list ! 0)"
    by simp_all
qed

lemma trim_example: "trim ''  https://example.org/clip.mp4 '' = ''https://example.org/clip.mp4''"
  by (simp add: trim_def is_white_space_def)

lemma trim_blank: "trim ''   '' = []"
  by (simp add: trim_def is_white_space_def)

text \<open>
  Claim C7. In every state the program reaches, a click on the load button whose input,
  trimmed, is not empty makes that text the source of the video, sets
  \<^verbatim>\<open>currentPlaylistId\<close> to \<^verbatim>\<open>null\<close> and leaves no handler for \<^verbatim>\<open>ended\<close>, so that
  the end of the video changes nothing. When the trimmed input is empty, the click
  restarts the playlist of the current item at index 0, and in a state without a current
  item the playlist \<^verbatim>\<open>creators\<close>.
\<close>

theorem load_video_button:
  assumes "start (Some v) = Returned s0" and "pristine v" and "list_all event_ok events"
  shows "let customUrl = (case urlInput of Some val \<Rightarrow> trim val | None \<Rightarrow> []);
             s = run s0 events;
             s' = click_load_video urlInput s
         in (customUrl \<noteq> [] \<longrightarrow>
               map_option src (htmlVideo s') = Some customUrl \<and>
               currentPlaylistId s' = None \<and>
               map_option onended (htmlVideo s') = Some None \<and>
               video_ended s' = s') \<and>
            (customUrl = [] \<longrightarrow>
               (\<exists>item p list.
                  currentItem s = Some item \<and> item_playlistId item = Some p \<and>
                  map_of playlists p = Some list \<and>
                  s' = playFromPlaylist p (Num 0) s \<and>
                  currentPlaylistId s' = Some p \<and> currentPlaylistIndex s' = Num 0 \<and>
                  map_option src (htmlVideo s') = Some (list ! 0)) \<and>
               (\<forall>x. currentItem x = None \<longrightarrow>
                  click_load_video urlInput x = playFromPlaylist ''creators'' (Num 0) x))"
proof -
  define customUrl where "customUrl = (case urlInput of Some val \<Rightarrow> trim val | None \<Rightarrow> [])"
  define s where "s = run s0 events"
  define s' where "s' = click_load_video urlInput s"
  from invariant_run [OF assms] have ok: "playlist_ok s"
    by (simp add: invariant_def s_def)
  have custom: "map_option src (htmlVideo s') = Some customUrl \<and>
      currentPlaylistId s' = None \<and>
      map_option onended (htmlVideo s') = Some None \<and> video_ended s' = s'"
    if "customUrl \<noteq> []"
    using click_load_video_custom [OF ok customUrl_def that]
    by (simp add: s'_def video_ended_no_handler)
  have empty: "(\<exists>item p list.
        currentItem s = Some item \<and> item_playlistId item = Some p \<and>
        map_of playlists p = Some list \<and>
        s' = playFromPlaylist p (Num 0) s \<and>
        currentPlaylistId s' = Some p \<and> currentPlaylistIndex s' = Num 0 \<and>
        map_option src (htmlVideo s') = Some (list ! 0)) \<and>
      (\<forall>x. currentItem x = None \<longrightarrow>
        click_load_video urlInput x = playFromPlaylist ''creators'' (Num 0) x)"
    if e: "customUrl = []"
  proof -
    from e have e': "(case urlInput of Some val \<Rightarrow> trim val | None \<Rightarrow> []) = []"
      by (simp add: customUrl_def)
    from ok obtain item where item: "currentItem s = Some item" "item \<in> set trendingItems"
      by (auto simp add: playlist_ok_iff)
    then obtain p list where p: "item_playlistId item = Some p" "p \<noteq> []"
        "map_of playlists p = Some list"
      using trendingItems_playlist by blast
    have eq: "s' = playFromPlaylist p (Num 0) s"
      using item p by (simp add: s'_def click_load_video_empty [OF e'])
    have "\<forall>x. currentItem x = None \<longrightarrow>
        click_load_video urlInput x = playFromPlaylist ''creators'' (Num 0) x"
      by (simp add: click_load_video_empty [OF e'])
    with item p eq playFromPlaylist_first [OF ok p(3)] show ?thesis
      by (auto simp add: eq)
  qed
  from custom empty show ?thesis
    unfolding customUrl_def s_def s'_def Let_def by blast
qed

theorem load_video_button_witness:
  "start (Some fresh_video) = Returned started \<and> pristine fresh_video \<and>
   list_all event_ok [Loadeddata, XRSelect [1]] \<and>
   trim ''  https://example.org/clip.mp4 '' \<noteq> [] \<and> trim ''   '' = [] \<and>
   (let s' = click_load_video (Some ''  https://example.org/clip.mp4 '')
               (run started [Loadeddata, XRSelect [1]])
    in map_option src (htmlVideo s') = Some ''https://example.org/clip.mp4'' \<and>
       currentPlaylistId s' = None \<and> map_option onended (htmlVideo s') = Some None) \<and>
   (let s' = click_load_video (Some ''   '') (run started [Loadeddata, XRSelect [1]])
    in currentPlaylistIndex s' = Num 0 \<and> currentPlaylistId s' \<noteq> None)"
proof -
  have ev: "list_all event_ok [Loadeddata, XRSelect [1]]"
    by (simp add: length_trendingItems)
  from load_video_button [OF start_fresh pristine_fresh ev,
      of "Some ''  https://example.org/clip.mp4 ''"]
    load_video_button [OF start_fresh pristine_fresh ev, of "Some ''   ''"]
    ev start_fresh pristine_fresh
  show ?thesis
    by (auto simp add: Let_def trim_example trim_blank)
qed

subsection \<open>Playlist index\<close>

lemma playFromPlaylist_result:
  assumes "map_of playlists playlistId = Some list" and "0 \<le> k"
    and "htmlVideo s = Some v" and "videoTexture s = Some b"
  shows "currentPlaylistId (playFromPlaylist playlistId (Num k) s) = Some playlistId"
    and "currentPlaylistIndex (playFromPlaylist playlistId (Num k) s) =
           Num (k mod int (length list))"
    and "videoTexture (playFromPlaylist playlistId (Num k) s) = Some True"
    and "htmlVideo (playFromPlaylist playlistId (Num k) s) =
           Some (v\<lparr>paused := True, src := list ! nat (k mod int (length list)),
                   onloadeddata := Some (), onended := Some (playlistId, Array list)\<rparr>)"
  using assms(3,4)
  by (simp_all add: playFromPlaylist_own [OF assms(1,2)] Let_def)

lemma playFromPlaylist_index:
  assumes "map_of playlists playlistId = Some list" and "0 \<le> k"
  shows "currentPlaylistId (playFromPlaylist playlistId (Num k) s) = Some playlistId"
    and "currentPlaylistIndex (playFromPlaylist playlistId (Num k) s) =
           Num (k mod int (length list))"
    and "htmlVideo (playFromPlaylist playlistId (Num k) s) = Some v' \<Longrightarrow>
           src v' = list ! nat (k mod int (length list))"
  by (auto simp add: playFromPlaylist_own [OF assms(1,2)] Let_def reportError_def
      split: option.splits)

lemma browsing_eq:
  "browsing =
    \<lparr>panels = map new_panel trendingItems, panelGroup = True, curvedScreen = Some 3,
     videoTexture = Some True,
     htmlVideo = Some (fresh_video\<lparr>muted := False, loop := True, paused := True,
        src := ''https://commondatastorage.googleapis.com/gtv-videos-bucket/sample/ForBiggerJoyrides.mp4'',
        onloadeddata := Some (),
        onended := Some (''music'',
          Array [''https://commondatastorage.googleapis.com/gtv-videos-bucket/sample/ForBiggerJoyrides.mp4'',
                 ''https://commondatastorage.googleapis.com/gtv-videos-bucket/sample/ForBiggerBlazes.mp4''])\<rparr>),
     currentItem = Some (trendingItems ! 1), currentPlaylistId = Some ''music'',
     currentPlaylistIndex = Num 0, audioEnabled = True, isPlaying = False,
     hoveredPanel = None, errors = []\<rparr>"
proof -
  have m: "map_of playlists ''music'' =
      Some [''https://commondatastorage.googleapis.com/gtv-videos-bucket/sample/ForBiggerJoyrides.mp4'',
            ''https://commondatastorage.googleapis.com/gtv-videos-bucket/sample/ForBiggerBlazes.mp4'']"
    by (simp add: playlists_def)
  have it: "item_playlistId (trendingItems ! Suc 0) = Some ''music''"
    by (simp add: trendingItems_def)
  show ?thesis
    by (simp add: browsing_def run_def started_eq video_loadeddata_def playVideo_def
        onXRSelect_def panel_at_def length_trendingItems activatePanel_def new_panel_def it
        ensureAudioEnabled_def Let_def playFromPlaylist_own [OF m] fresh_video_def)
qed

text \<open>In every state the program reaches the current index is valid.\<close>

lemma playlist_index_reached:
  assumes "start (Some v) = Returned s0" and "pristine v" and "list_all event_ok events"
    and "currentPlaylistId (run s0 events) = Some p"
  obtains list i where "map_of playlists p = Some list"
    and "currentPlaylistIndex (run s0 events) = Num i" and "0 \<le> i"
    and "i < int (length list)"
proof -
  from invariant_run [OF assms(1-3)] have "playlist_ok (run s0 events)"
    by (simp add: invariant_def)
  with assms(4) that show ?thesis
    by (auto simp add: playlist_ok_iff)
qed

subsection \<open>The end of a video\<close>

lemma loop_reportError [simp]:
  "map_option loop (htmlVideo (reportError stage s)) = map_option loop (htmlVideo s)"
  by (simp add: reportError_def)

lemma loop_playVideo [simp]:
  "map_option loop (htmlVideo (playVideo s)) = map_option loop (htmlVideo s)"
  by (simp add: playVideo_def split: option.splits)

lemma loop_pauseVideo [simp]:
  "map_option loop (htmlVideo (pauseVideo s)) = map_option loop (htmlVideo s)"
  by (simp add: pauseVideo_def split: option.splits)

lemma loop_ensureAudioEnabled [simp]:
  "map_option loop (htmlVideo (ensureAudioEnabled s)) = map_option loop (htmlVideo s)"
  by (simp add: ensureAudioEnabled_def split: option.splits)

lemma loop_toggleMute [simp]:
  "map_option loop (htmlVideo (toggleMute s)) = map_option loop (htmlVideo s)"
  by (simp add: toggleMute_def split: option.splits)

lemma loop_changeVolume [simp]:
  "map_option loop (htmlVideo (changeVolume delta s)) = map_option loop (htmlVideo s)"
  by (simp add: changeVolume_def Let_def split: option.splits)

lemma loop_seekBy [simp]:
  "map_option loop (htmlVideo (seekBy deltaSeconds s)) = map_option loop (htmlVideo s)"
  by (simp add: seekBy_def Let_def split: option.splits)

lemma loop_media_progress [simp]:
  "map_option loop (htmlVideo (media_progress now whole stopped s)) =
    map_option loop (htmlVideo s)"
  by (simp add: media_progress_def split: option.splits)

lemma loop_playFromPlaylist [simp]:
  "map_option loop (htmlVideo (playFromPlaylist playlistId startIndex s)) =
    map_option loop (htmlVideo s)"
  by (simp add: playFromPlaylist_def Let_def reportError_def split: option.splits)

lemma loop_onended_handler [simp]:
  "map_option loop (htmlVideo (onended_handler closure s)) = map_option loop (htmlVideo s)"
  by (cases closure) (simp add: onended_handler_def Let_def)

lemma loop_video_ended [simp]:
  "map_option loop (htmlVideo (video_ended s)) = map_option loop (htmlVideo s)"
proof (cases "htmlVideo s")
  case None
  then show ?thesis by (simp add: video_ended_def)
next
  case (Some v)
  show ?thesis
  proof (cases "loop v \<or> onended v = None")
    case True
    with Some have "video_ended s = s"
      by (auto simp add: video_ended_def)
    then show ?thesis by simp
  next
    case False
    then obtain closure where "onended v = Some closure" and "\<not> loop v" by auto
    with Some have "video_ended s = onended_handler closure s"
      by (simp add: video_ended_def)
    then show ?thesis by (simp only: loop_onended_handler)
  qed
qed

lemma loop_video_loadeddata [simp]:
  "map_option loop (htmlVideo (video_loadeddata s)) = map_option loop (htmlVideo s)"
  by (simp add: video_loadeddata_def playVideo_def Let_def split: option.splits)

lemma loop_activatePanel [simp]:
  "map_option loop (htmlVideo (activatePanel panel s)) = map_option loop (htmlVideo s)"
proof -
  have "map_option loop (htmlVideo (ensureAudioEnabled (s\<lparr>currentItem := x\<rparr>))) =
      map_option loop (htmlVideo s)" for x
    by (simp add: ensureAudioEnabled_def split: option.splits)
  then show ?thesis
    by (simp add: activatePanel_def Let_def split: option.splits)
qed

lemma loop_click_load_video [simp]:
  "map_option loop (htmlVideo (click_load_video urlInput s)) = map_option loop (htmlVideo s)"
  by (simp add: click_load_video_def Let_def reportError_def split: option.splits)

lemma loop_step: "map_option loop (htmlVideo (step s e)) = map_option loop (htmlVideo s)"
  by (cases e)
    (simp_all add: window_click_def onXRSelect_def click_play_pause_def click_unmute_def
      click_seek_back_def click_seek_forward_def click_vol_down_def click_vol_up_def
      video_error_def playVideo_then_def playVideo_catch_def
      split: option.splits list.splits)

text \<open>The video loops in every state the program reaches, so its end changes nothing.\<close>

lemma loop_run:
  assumes "start (Some v) = Returned s0"
  shows "map_option loop (htmlVideo (run s0 events)) = Some True"
proof (induction events rule: rev_induct)
  case Nil
  from assms show ?case
    by (rule start_Returned) simp
next
  case (snoc e events)
  then show ?case by (simp add: loop_step)
qed

lemma video_ended_reached:
  assumes "start (Some v) = Returned s0"
  shows "video_ended (run s0 events) = run s0 events"
  using loop_run [OF assms, of events]
  by (auto simp add: video_ended_def split: option.splits)

text \<open>
  Claim C9. \<^verbatim>\<open>playFromPlaylist\<close> sets \<^verbatim>\<open>currentPlaylistIndex\<close> to the start index modulo
  the length of the playlist (lemmas \<open>playFromPlaylist_index\<close> and
  \<open>playlist_index_reached\<close>), and when a playlist video ends the video at the next index
  modulo the length should play. After the start, the loading of the first video and the
  selection of the second panel, the video is the first of the playlist \<^verbatim>\<open>music\<close> and the
  handler for \<^verbatim>\<open>ended\<close> is installed; run by hand it moves to index 1 and the second
  video. But the element loops, so the end of the video runs no handler: the index stays
  0 and the same video stays the source. The first video of the program, of the playlist
  \<^verbatim>\<open>creators\<close>, has no handler at all.
\<close>

theorem ended_does_not_advance:
  "browsing = run started [Loadeddata, XRSelect [1]] \<and>
   start (Some fresh_video) = Returned started \<and>
   currentPlaylistId browsing = Some ''music'' \<and>
   currentPlaylistIndex browsing = Num 0 \<and>
   map_option src (htmlVideo browsing) = Some ''https://commondatastorage.googleapis.com/gtv-videos-bucket/sample/ForBiggerJoyrides.mp4'' \<and>
   map_option loop (htmlVideo browsing) = Some True \<and>
   map_option onended (htmlVideo browsing) = Some (Some (''music'', Array [''https://commondatastorage.googleapis.com/gtv-videos-bucket/sample/ForBiggerJoyrides.mp4'', ''https://commondatastorage.googleapis.com/gtv-videos-bucket/sample/ForBiggerBlazes.mp4''])) \<and>
   currentPlaylistIndex (onended_handler (''music'', Array [''https://commondatastorage.googleapis.com/gtv-videos-bucket/sample/ForBiggerJoyrides.mp4'', ''https://commondatastorage.googleapis.com/gtv-videos-bucket/sample/ForBiggerBlazes.mp4'']) browsing) =
     Num 1 \<and>
   map_option src (htmlVideo (onended_handler (''music'', Array [''https://commondatastorage.googleapis.com/gtv-videos-bucket/sample/ForBiggerJoyrides.mp4'', ''https://commondatastorage.googleapis.com/gtv-videos-bucket/sample/ForBiggerBlazes.mp4'']) browsing)) =
     Some ''https://commondatastorage.googleapis.com/gtv-videos-bucket/sample/ForBiggerBlazes.mp4'' \<and>
   video_ended browsing = browsing \<and>
   currentPlaylistId playing = Some ''creators'' \<and>
   map_option onended (htmlVideo playing) = Some None"
proof -
  have m: "map_of playlists ''music'' = Some [''https://commondatastorage.googleapis.com/gtv-videos-bucket/sample/ForBiggerJoyrides.mp4'', ''https://commondatastorage.googleapis.com/gtv-videos-bucket/sample/ForBiggerBlazes.mp4'']"
    by (simp add: playlists_def)
  have h: "htmlVideo browsing \<noteq> None" "videoTexture browsing \<noteq> None"
    by (simp_all add: browsing_eq)
  then obtain v b where vb: "htmlVideo browsing = Some v" "videoTexture browsing = Some b"
    by auto
  have k: "(0::int) \<le> 1" by simp
  have "onended_handler (''music'', Array [''https://commondatastorage.googleapis.com/gtv-videos-bucket/sample/ForBiggerJoyrides.mp4'', ''https://commondatastorage.googleapis.com/gtv-videos-bucket/sample/ForBiggerBlazes.mp4'']) browsing =
      playFromPlaylist ''music'' (Num 1) browsing"
    by (simp add: onended_handler_def Let_def browsing_eq)
  with playFromPlaylist_result [OF m k vb]
  have adv: "currentPlaylistIndex (onended_handler (''music'', Array [''https://commondatastorage.googleapis.com/gtv-videos-bucket/sample/ForBiggerJoyrides.mp4'', ''https://commondatastorage.googleapis.com/gtv-videos-bucket/sample/ForBiggerBlazes.mp4'']) browsing) =
       Num 1"
    "map_option src (htmlVideo (onended_handler (''music'', Array [''https://commondatastorage.googleapis.com/gtv-videos-bucket/sample/ForBiggerJoyrides.mp4'', ''https://commondatastorage.googleapis.com/gtv-videos-bucket/sample/ForBiggerBlazes.mp4'']) browsing)) =
       Some ''https://commondatastorage.googleapis.com/gtv-videos-bucket/sample/ForBiggerBlazes.mp4''"
    by simp_all
  have stay: "video_ended browsing = browsing"
    by (simp add: video_ended_def browsing_eq fresh_video_def)
  have b: "currentPlaylistId browsing = Some ''music''"
    "currentPlaylistIndex browsing = Num 0"
    "map_option src (htmlVideo browsing) = Some ''https://commondatastorage.googleapis.com/gtv-videos-bucket/sample/ForBiggerJoyrides.mp4''"
    "map_option loop (htmlVideo browsing) = Some True"
    "map_option onended (htmlVideo browsing) = Some (Some (''music'', Array [''https://commondatastorage.googleapis.com/gtv-videos-bucket/sample/ForBiggerJoyrides.mp4'', ''https://commondatastorage.googleapis.com/gtv-videos-bucket/sample/ForBiggerBlazes.mp4'']))"
    by (simp_all add: browsing_eq fresh_video_def)
  have p: "currentPlaylistId playing = Some ''creators''"
    "map_option onended (htmlVideo playing) = Some None"
    by (simp_all add: playing_eq fresh_video_def)
  from adv stay b p start_fresh show ?thesis
    by (simp add: browsing_def)
qed

subsection \<open>Activating a panel\<close>

lemma currentItem_playFromPlaylist [simp]:
  "currentItem (playFromPlaylist playlistId startIndex s) = currentItem s"
  by (simp add: playFromPlaylist_def Let_def reportError_def split: option.splits)

lemma currentItem_ensureAudioEnabled [simp]:
  "currentItem (ensureAudioEnabled s) = currentItem s"
  by (simp add: ensureAudioEnabled_def split: option.splits)

lemma playFromPlaylist_paused:
  assumes "map_of playlists p = Some list" and "0 \<le> k" and "htmlVideo s \<noteq> None"
  shows "map_option paused (htmlVideo (playFromPlaylist p (Num k) s)) = Some True"
  using assms(3)
  by (cases "videoTexture s")
    (auto simp add: playFromPlaylist_own [OF assms(1,2)] Let_def reportError_def)

lemma video_loadeddata_plays:
  assumes "htmlVideo s = Some v"
  shows "htmlVideo (video_loadeddata s) = Some (v\<lparr>paused := False\<rparr>)"
    and "curvedScreen (video_loadeddata s) = Some 3"
  using assms
  by (simp_all add: video_loadeddata_def playVideo_def Let_def split: option.splits)

lemma activatePanel_panel:
  assumes "panels_ok s" and "i < length trendingItems"
  obtains p list where "item_playlistId (trendingItems ! i) = Some p"
    and "map_of playlists p = Some list"
    and "userData_item (panels s ! i) = Some (trendingItems ! i)"
    and "activatePanel (panel_at s i) s =
      playFromPlaylist p (Num 0)
        (ensureAudioEnabled (s\<lparr>currentItem := Some (trendingItems ! i)\<rparr>))"
proof -
  from assms have at: "panel_at s i = Some (panels s ! i)"
    and it: "userData_item (panels s ! i) = Some (trendingItems ! i)"
    by (simp_all add: panels_ok_def panel_at_def)
  from assms(2) have "trendingItems ! i \<in> set trendingItems" by simp
  then obtain p list where p: "item_playlistId (trendingItems ! i) = Some p" "p \<noteq> []"
      "map_of playlists p = Some list"
    using trendingItems_playlist by blast
  have "activatePanel (panel_at s i) s =
      playFromPlaylist p (Num 0)
        (ensureAudioEnabled (s\<lparr>currentItem := Some (trendingItems ! i)\<rparr>))"
    by (simp add: activatePanel_def at it p Let_def)
  with p it that show ?thesis by blast
qed

text \<open>
  Claim C1. In every state the program reaches and for every panel of the scene, a click
  while the panel is the hovered one, or an XR select whose ray hits it first, makes the
  panel's item the current item, makes the first entry of that item's playlist the source
  of the video with playlist index 0, and leaves the video waiting for its data; when the
  data has loaded, the video plays and the curved screen exists.
\<close>

theorem activate_panel:
  assumes "start (Some v) = Returned s0" and "pristine v" and "list_all event_ok events"
    and "i < length trendingItems"
    and "s' = onXRSelect (i # hits) (run s0 events) \<or>
         (getHoveredPanel r = Some i \<and> s' = window_click r (run s0 events))"
  shows "\<exists>p list.
      userData_item (panels (run s0 events) ! i) = Some (trendingItems ! i) \<and>
      item_playlistId (trendingItems ! i) = Some p \<and> map_of playlists p = Some list \<and>
      currentItem s' = Some (trendingItems ! i) \<and>
      currentPlaylistId s' = Some p \<and> currentPlaylistIndex s' = Num 0 \<and>
      map_option src (htmlVideo s') = Some (list ! 0) \<and>
      map_option paused (htmlVideo s') = Some True \<and>
      map_option src (htmlVideo (video_loadeddata s')) = Some (list ! 0) \<and>
      map_option paused (htmlVideo (video_loadeddata s')) = Some False \<and>
      curvedScreen (video_loadeddata s') \<noteq> None"
proof -
  define s where "s = run s0 events"
  from invariant_run [OF assms(1-3)] have ok: "panels_ok s" "playlist_ok s"
    by (simp_all add: invariant_def s_def)
  from assms(5) have s': "s' = activatePanel (panel_at s i) s"
    by (auto simp add: onXRSelect_def window_click_def s_def)
  define s1 where "s1 = ensureAudioEnabled (s\<lparr>currentItem := Some (trendingItems ! i)\<rparr>)"
  from ok(1) assms(4) obtain p list where p: "item_playlistId (trendingItems ! i) = Some p"
    "map_of playlists p = Some list"
    and it: "userData_item (panels s ! i) = Some (trendingItems ! i)"
    and e: "s' = playFromPlaylist p (Num 0) s1"
    unfolding s' s1_def by (rule activatePanel_panel)
  from assms(4) have "trendingItems ! i \<in> set trendingItems" by simp
  with ok(2) have "playlist_ok (s\<lparr>currentItem := Some (trendingItems ! i)\<rparr>)"
    by (simp add: playlist_ok_iff)
  then have ok1: "playlist_ok s1"
    unfolding s1_def by (rule playlist_ok_ensureAudioEnabled)
  then obtain v1 where v1: "htmlVideo s1 \<noteq> None"
    by (auto simp add: playlist_ok_iff)
  have item: "currentItem s' = Some (trendingItems ! i)"
    by (simp add: e s1_def)
  note first = playFromPlaylist_first [OF ok1 p(2), folded e]
  have pa: "map_option paused (htmlVideo s') = Some True"
    unfolding e using p(2) _ v1 by (rule playFromPlaylist_paused) simp
  from first(3) obtain v' where v': "htmlVideo s' = Some v'" "src v' = list ! 0"
    by auto
  note ld = video_loadeddata_plays [OF v'(1)]
  from p it item first pa v' ld show ?thesis
    by (auto simp add: s_def)
qed

theorem activate_panel_witness:
  "start (Some fresh_video) = Returned started \<and> pristine fresh_video \<and>
   list_all event_ok [Loadeddata] \<and> 2 < length trendingItems \<and>
   getHoveredPanel \<lparr>mouse_hits = [2], controller_hits = []\<rparr> = Some 2 \<and>
   (let s' = window_click \<lparr>mouse_hits = [2], controller_hits = []\<rparr> (run started [Loadeddata])
    in currentItem s' = Some (trendingItems ! 2) \<and>
       currentPlaylistId s' = Some ''gaming'' \<and> currentPlaylistIndex s' = Num 0 \<and>
       map_option src (htmlVideo s') =
         Some ''https://commondatastorage.googleapis.com/gtv-videos-bucket/sample/ForBiggerEscapes.mp4'' \<and>
       map_option paused (htmlVideo (video_loadeddata s')) = Some False)"
proof -
  let ?r = "\<lparr>mouse_hits = [2], controller_hits = []\<rparr>"
  define s' where "s' = window_click ?r (run started [Loadeddata])"
  have ev: "list_all event_ok [Loadeddata]" by simp
  have i: "2 < length trendingItems" by (simp add: length_trendingItems)
  have g: "getHoveredPanel ?r = Some 2" by (simp add: getHoveredPanel_def)
  have d: "s' = onXRSelect (2 # []) (run started [Loadeddata]) \<or>
      (getHoveredPanel ?r = Some 2 \<and> s' = window_click ?r (run started [Loadeddata]))"
    using g by (simp add: s'_def)
  from activate_panel [OF start_fresh pristine_fresh ev i d]
  obtain p list where
    p: "item_playlistId (trendingItems ! 2) = Some p" "map_of playlists p = Some list"
    and c: "currentItem s' = Some (trendingItems ! 2)" "currentPlaylistId s' = Some p"
      "currentPlaylistIndex s' = Num 0" "map_option src (htmlVideo s') = Some (list ! 0)"
      "map_option paused (htmlVideo (video_loadeddata s')) = Some False"
    by blast
  from p(1) have p': "p = ''gaming''" by (simp add: trendingItems_def)
  from p(2) have "list ! 0 =
      ''https://commondatastorage.googleapis.com/gtv-videos-bucket/sample/ForBiggerEscapes.mp4''"
    unfolding p' by (auto simp add: playlists_def)
  with c p' start_fresh pristine_fresh ev i g show ?thesis
    by (simp add: Let_def s'_def [symmetric])
qed

subsection \<open>Calls that are refused\<close>

lemma playFromPlaylist_refused:
  assumes "playlists_get playlistId = Undefined \<or> js_length (playlists_get playlistId) = Some 0"
  shows "playFromPlaylist playlistId startIndex s = reportError ''Playlist'' s"
  using assms by (simp add: playFromPlaylist_def Let_def)

lemma playFromPlaylist_unknown_name:
  assumes "map_of playlists playlistId = None" and "map_of object_prototype playlistId = None"
  shows "playFromPlaylist playlistId startIndex s = s\<lparr>errors := errors s @ [''Playlist'']\<rparr>"
  using assms by (simp add: playFromPlaylist_refused playlists_get_def reportError_def)






subsection \<open>The state that playback depends on\<close>


lemma playback_eqI:
  assumes "currentItem s = currentItem s'" and "currentPlaylistId s = currentPlaylistId s'"
    and "currentPlaylistIndex s = currentPlaylistIndex s'"
    and "audioEnabled s = audioEnabled s'" and "isPlaying s = isPlaying s'"
    and "htmlVideo s = htmlVideo s'" and "videoTexture s = videoTexture s'"
  shows "playback s = playback s'"
  using assms by (simp add: playback_def cursor_def)

lemma playback_reportError [simp]: "playback (reportError stage s) = playback s"
  by (simp add: playback_def cursor_def reportError_def)

















lemma playback_render [simp]: "playback (render t r s) = playback s"
  by (rule playback_eqI) simp_all




end
